theory Spec2Isabelle
  imports Complex_Main
begin

section \<open>Control flow of the TypeScript sources\<close>

text \<open>
  The two components are React function components whose callbacks are \<^verbatim>\<open>async\<close>
  functions with \<^verbatim>\<open>try\<close>/\<^verbatim>\<open>catch\<close> blocks and early \<^verbatim>\<open>return\<close>s. A statement is a
  function from the component state to a completion and the state it leaves behind:
  \<open>Normal\<close> (control falls through to the next statement), \<open>Return v\<close> or \<open>Throw e\<close>.
  An \<^verbatim>\<open>async\<close> function that completes with \<open>Return v\<close> fulfils its promise with \<open>v\<close>,
  one that completes with \<open>Throw e\<close> rejects it with \<open>e\<close>.

  One call of a callback is one transition. It starts in the state of the render that
  created the callback: what the closure captured (\<^verbatim>\<open>providers\<close>, \<^verbatim>\<open>activeProvider\<close>,
  \<^verbatim>\<open>autoFallback\<close>, \<^verbatim>\<open>models\<close>, \<^verbatim>\<open>filterBengali\<close>) is read from the state the transition
  starts in, and the functional updates passed to the setters are applied to the state
  in the order they are issued. The callbacks handed in as props are modelled as the
  page that mounts the components (src/unnamed/part\_001) binds them: each call is
  logged, and a call that throws there throws here.

  Of the effects, the one that scans the providers again whenever the array
  \<^verbatim>\<open>providers\<close> is replaced is modelled (\<open>autoScanEffect\<close>), since the periodic health
  check triggers it. The delays of the timers are not represented: a sequence of
  transitions is a list of calls in the order in which they run.
\<close>

datatype exn = TypeError | AbortError

datatype 'a completion = Normal | Return 'a | Throw exn

type_synonym ('a, 's) stmt = "'s \<Rightarrow> 'a completion \<times> 's"

definition seq :: "('a, 's) stmt \<Rightarrow> ('a, 's) stmt \<Rightarrow> ('a, 's) stmt" where
  "seq s1 s2 = (\<lambda>st. case s1 st of (Normal, st') \<Rightarrow> s2 st' | r \<Rightarrow> r)"

definition try_catch :: "('a, 's) stmt \<Rightarrow> (exn \<Rightarrow> ('a, 's) stmt) \<Rightarrow> ('a, 's) stmt" where
  "try_catch body handler = (\<lambda>st. case body st of (Throw e, st') \<Rightarrow> handler e st' | r \<Rightarrow> r)"

definition effect :: "('s \<Rightarrow> 's) \<Rightarrow> ('a, 's) stmt" where
  "effect f = (\<lambda>st. (Normal, f st))"

definition return :: "'a \<Rightarrow> ('a, 's) stmt" where
  "return v = (\<lambda>st. (Return v, st))"

definition throw :: "exn \<Rightarrow> ('a, 's) stmt" where
  "throw e = (\<lambda>st. (Throw e, st))"

definition skip :: "('a, 's) stmt" where
  "skip = (\<lambda>st. (Normal, st))"

section \<open>Provider manager (src/components/mcp-manager.tsx)\<close>

datatype provider_type = Local | Remote | Cloud

datatype provider_status = Connected | Disconnected | Connecting | PError

text \<open>
  The interface \<^verbatim>\<open>MCPProvider\<close>. JavaScript numbers that hold integers (milliseconds,
  priorities) are \<open>int\<close>; a \<^verbatim>\<open>Date\<close> is its millisecond timestamp.
\<close>

record MCPProvider =
  p_id :: string
  p_name :: string
  p_type :: provider_type
  p_endpoint :: string
  p_status :: provider_status
  p_capabilities :: "string list"
  p_latency :: int
  p_lastPing :: int
  p_version :: string
  p_priority :: int
  p_fallbackOrder :: int

text \<open>
  The two callbacks of \<^verbatim>\<open>MCPManagerProps\<close> are outputs of the component: each call is
  appended to a log. The page that mounts the component (src/unnamed/part\_001) binds
  \<^verbatim>\<open>onStatusUpdate\<close> to \<^verbatim>\<open>addToConsole\<close> and \<^verbatim>\<open>onProviderChange\<close> to
  \<^verbatim>\<open>handleProviderChange\<close>; both store their argument and return, whatever it is, and
  both are \<^verbatim>\<open>useCallback\<close>s that keep their identity. The messages of
  \<^verbatim>\<open>onStatusUpdate\<close> are kept by kind, with the values interpolated into the text.
\<close>

datatype mcp_message =
    Testing_connection string
  | Scanning_providers
  | Connected_with_latency string int
  | No_providers_available
  | Connected_to string
  | Failed_to_connect string
  | Switched_to_fallback string
  | Disconnected_from_provider

datatype mcp_event = StatusUpdate mcp_message | ProviderChange "MCPProvider option"

text \<open>
  The \<^verbatim>\<open>useState\<close> cells of \<^verbatim>\<open>MCPManager\<close> that the callbacks read or write. Every
  updater passed to \<^verbatim>\<open>setProviders\<close> is \<^verbatim>\<open>prev.map(...)\<close>, which builds a new array: the
  value of \<^verbatim>\<open>providers\<close> is a different object after each call, whatever its elements.
  \<open>providersVersion\<close> counts these calls, so that two renders see the same array exactly
  when they see the same count.
\<close>

record mcp_state =
  providers :: "MCPProvider list"
  providersVersion :: nat
  activeProvider :: "MCPProvider option"
  isScanning :: bool
  autoFallback :: bool
  events :: "mcp_event list"

text \<open>
  What the outside world does during one call of \<^verbatim>\<open>testConnection\<close>: how
  \<^verbatim>\<open>await fetch(...)\<close> settles (\<open>Inr ok\<close> is a response with \<^verbatim>\<open>response.ok = ok\<close>,
  \<open>Inl e\<close> is a rejection, among them the abort fired by the connection timeout), the
  value of \<^verbatim>\<open>Math.random()\<close>, and the clock readings.
\<close>

record probe_env =
  fetch_result :: "exn + bool"
  random :: real
  start_time :: int
  end_time :: int
  ping_time :: int

definition setProviders :: "(MCPProvider list \<Rightarrow> MCPProvider list) \<Rightarrow> mcp_state \<Rightarrow> mcp_state" where
  "setProviders f st =
     st\<lparr>providers := f (providers st), providersVersion := Suc (providersVersion st)\<rparr>"

definition setActiveProvider :: "MCPProvider option \<Rightarrow> mcp_state \<Rightarrow> mcp_state" where
  "setActiveProvider a st = st\<lparr>activeProvider := a\<rparr>"

definition setIsScanning :: "bool \<Rightarrow> mcp_state \<Rightarrow> mcp_state" where
  "setIsScanning b st = st\<lparr>isScanning := b\<rparr>"

definition onStatusUpdate :: "mcp_message \<Rightarrow> mcp_state \<Rightarrow> mcp_state" where
  "onStatusUpdate m st = st\<lparr>events := events st @ [StatusUpdate m]\<rparr>"

definition onProviderChange :: "MCPProvider option \<Rightarrow> mcp_state \<Rightarrow> mcp_state" where
  "onProviderChange a st = st\<lparr>events := events st @ [ProviderChange a]\<rparr>"

text \<open>The three updaters passed to \<^verbatim>\<open>setProviders\<close>: each maps over the previous list.\<close>

definition mark_connected :: "string \<Rightarrow> int \<Rightarrow> int \<Rightarrow> MCPProvider list \<Rightarrow> MCPProvider list" where
  "mark_connected pid lat now prev =
     map (\<lambda>p. if p_id p = pid then p\<lparr>p_status := Connected, p_latency := lat, p_lastPing := now\<rparr> else p) prev"

definition mark_error :: "string \<Rightarrow> int \<Rightarrow> MCPProvider list \<Rightarrow> MCPProvider list" where
  "mark_error pid now prev =
     map (\<lambda>p. if p_id p = pid then p\<lparr>p_status := PError, p_lastPing := now\<rparr> else p) prev"

definition mark_status :: "string \<Rightarrow> provider_status \<Rightarrow> MCPProvider list \<Rightarrow> MCPProvider list" where
  "mark_status pid s prev = map (\<lambda>p. if p_id p = pid then p\<lparr>p_status := s\<rparr> else p) prev"

subsection \<open>testConnection\<close>

definition local_check :: "probe_env \<Rightarrow> MCPProvider \<Rightarrow> (bool, mcp_state) stmt" where
  "local_check env provider =
     try_catch
       (case fetch_result env of
          Inl e \<Rightarrow> throw e
        | Inr ok \<Rightarrow>
            if ok then
              seq (effect (setProviders
                     (mark_connected (p_id provider) (end_time env - start_time env) (ping_time env))))
                  (return True)
            else skip)
       (\<lambda>e. skip)"

definition cloud_check :: "probe_env \<Rightarrow> MCPProvider \<Rightarrow> (bool, mcp_state) stmt" where
  "cloud_check env provider =
     (if random env > 3 / 10 then
        seq (effect (setProviders
               (mark_connected (p_id provider) (end_time env - start_time env) (ping_time env))))
            (return True)
      else skip)"

definition connection_failed :: "probe_env \<Rightarrow> MCPProvider \<Rightarrow> (bool, mcp_state) stmt" where
  "connection_failed env provider =
     seq (effect (setProviders (mark_error (p_id provider) (ping_time env)))) (return False)"

definition testConnection :: "probe_env \<Rightarrow> MCPProvider \<Rightarrow> (bool, mcp_state) stmt" where
  "testConnection env provider =
     try_catch
       (seq (effect (onStatusUpdate (Testing_connection (p_name provider))))
       (seq (if p_type provider = Local then local_check env provider
             else if p_type provider = Cloud then cloud_check env provider
             else skip)
            (connection_failed env provider)))
       (\<lambda>e. connection_failed env provider)"

subsection \<open>scanProviders\<close>

text \<open>
  \<^verbatim>\<open>Promise.allSettled(providers.map((provider) => testConnection(provider)))\<close>: one
  settled result per element of the list, in the order of the list. The \<open>i\<close>-th probe
  runs in the environment \<open>envs i\<close>. The probes run concurrently; each one's state
  update only touches the entries that carry its provider's id, and the updates are taken
  here in the order of the list.
\<close>

fun allSettled ::
  "(nat \<Rightarrow> probe_env) \<Rightarrow> nat \<Rightarrow> MCPProvider list \<Rightarrow> mcp_state \<Rightarrow> bool completion list \<times> mcp_state" where
  "allSettled envs i [] st = ([], st)"
| "allSettled envs i (p # ps) st =
     (case testConnection (envs i) p st of
        (r, st') \<Rightarrow> (case allSettled envs (Suc i) ps st' of (rs, st'') \<Rightarrow> (r # rs, st'')))"

text \<open>
  \<^verbatim>\<open>results[index].status === "fulfilled" && results[index].value\<close> holds of a promise
  that returned \<^verbatim>\<open>true\<close>.
\<close>

definition fulfilled_true :: "bool completion \<Rightarrow> bool" where
  "fulfilled_true r = (r = Return True)"

text \<open>
  The providers kept by \<^verbatim>\<open>.filter((_, index) => ...)\<close> and ordered by
  \<^verbatim>\<open>.sort((a, b) => a.priority - b.priority)\<close>; the sort of an array is stable, as
  \<^const>\<open>sort_key\<close> is.
\<close>

definition connectedProviders :: "MCPProvider list \<Rightarrow> bool completion list \<Rightarrow> MCPProvider list" where
  "connectedProviders ps results =
     sort_key p_priority (map fst (filter (\<lambda>(p, r). fulfilled_true r) (zip ps results)))"

definition scanProviders :: "(nat \<Rightarrow> probe_env) \<Rightarrow> (bool, mcp_state) stmt" where
  "scanProviders envs st =
     (seq (effect (setIsScanning True))
     (seq (effect (onStatusUpdate Scanning_providers))
     (seq (effect (setProviders (map (\<lambda>p. p\<lparr>p_status := Connecting\<rparr>))))
     (seq (\<lambda>st1. case allSettled envs 0 (providers st) st1 of
             (results, st2) \<Rightarrow>
               (case connectedProviders (providers st) results of
                  bestProvider # _ \<Rightarrow>
                    seq (effect (setActiveProvider (Some bestProvider)))
                   (seq (effect (onProviderChange (Some bestProvider)))
                        (effect (onStatusUpdate
                           (Connected_with_latency (p_name bestProvider) (p_latency bestProvider)))))
                | [] \<Rightarrow>
                    seq (effect (setActiveProvider None))
                   (seq (effect (onProviderChange None))
                        (effect (onStatusUpdate No_providers_available)))) st2)
          (effect (setIsScanning False)))))) st"

subsection \<open>connectToProvider, disconnectProvider and the periodic health check\<close>

text \<open>
  \<^verbatim>\<open>await testConnection(provider)\<close> yields the value the promise is fulfilled with, or
  throws what it is rejected with.
\<close>

definition connectToProvider :: "probe_env \<Rightarrow> MCPProvider \<Rightarrow> (bool, mcp_state) stmt" where
  "connectToProvider env provider st =
     (seq (effect (setProviders (mark_status (p_id provider) Connecting)))
          (\<lambda>st1. case testConnection env provider st1 of
             (Throw e, st2) \<Rightarrow> (Throw e, st2)
           | (r, st2) \<Rightarrow>
               (if r = Return True then
                  seq (effect (setActiveProvider (Some provider)))
                 (seq (effect (onProviderChange (Some provider)))
                      (effect (onStatusUpdate (Connected_to (p_name provider)))))
                else
                  seq (effect (onStatusUpdate (Failed_to_connect (p_name provider))))
                      (if autoFallback st then
                         (case sort_key p_fallbackOrder
                                 (filter (\<lambda>p. p_id p \<noteq> p_id provider \<and> p_status p = Connected)
                                    (providers st)) of
                            fallback # _ \<Rightarrow>
                              seq (effect (setActiveProvider (Some fallback)))
                             (seq (effect (onProviderChange (Some fallback)))
                                  (effect (onStatusUpdate (Switched_to_fallback (p_name fallback)))))
                          | [] \<Rightarrow> skip)
                       else skip)) st2)) st"

definition disconnectProvider :: "string \<Rightarrow> (bool, mcp_state) stmt" where
  "disconnectProvider providerId st =
     (seq (effect (setProviders (mark_status providerId Disconnected)))
          (if map_option p_id (activeProvider st) = Some providerId then
             seq (effect (setActiveProvider None))
            (seq (effect (onProviderChange None))
                 (effect (onStatusUpdate Disconnected_from_provider)))
           else skip)) st"

text \<open>
  One firing of the 30 second interval set up while \<^verbatim>\<open>activeProvider\<close> is not null:
  \<^verbatim>\<open>testConnection(activeProvider)\<close>, whose promise nobody reads.
\<close>

definition healthCheck :: "probe_env \<Rightarrow> mcp_state \<Rightarrow> mcp_state" where
  "healthCheck env st =
     (case activeProvider st of
        None \<Rightarrow> st
      | Some a \<Rightarrow> snd (testConnection env a st))"

text \<open>The initial value of the \<^verbatim>\<open>providers\<close> cell; \<open>now\<close> is the time of the first render.\<close>

definition initial_providers :: "int \<Rightarrow> MCPProvider list" where
  "initial_providers now =
    [\<lparr>p_id = ''zombiecoder-local'', p_name = ''ZombieCoder Local'', p_type = Local,
      p_endpoint = ''http://localhost:8080/mcp'', p_status = Disconnected,
      p_capabilities = [''code-analysis'', ''bengali-processing'', ''voice-commands'', ''file-indexing''],
      p_latency = 0, p_lastPing = now, p_version = ''1.0.0'', p_priority = 1, p_fallbackOrder = 1\<rparr>,
     \<lparr>p_id = ''ollama-local'', p_name = ''Ollama Local'', p_type = Local,
      p_endpoint = ''http://localhost:11434/api'', p_status = Disconnected,
      p_capabilities = [''text-generation'', ''code-completion'', ''translation''],
      p_latency = 0, p_lastPing = now, p_version = ''0.1.0'', p_priority = 2, p_fallbackOrder = 2\<rparr>,
     \<lparr>p_id = ''lmstudio-local'', p_name = ''LM Studio'', p_type = Local,
      p_endpoint = ''http://localhost:1234/v1'', p_status = Disconnected,
      p_capabilities = [''text-generation'', ''code-completion''],
      p_latency = 0, p_lastPing = now, p_version = ''0.2.0'', p_priority = 3, p_fallbackOrder = 3\<rparr>,
     \<lparr>p_id = ''openai-cloud'', p_name = ''OpenAI GPT'', p_type = Cloud,
      p_endpoint = ''https://api.openai.com/v1'', p_status = Disconnected,
      p_capabilities = [''text-generation'', ''code-completion'', ''translation'', ''analysis''],
      p_latency = 0, p_lastPing = now, p_version = ''4.0'', p_priority = 4, p_fallbackOrder = 4\<rparr>]"

definition initial_mcp_state :: "int \<Rightarrow> mcp_state" where
  "initial_mcp_state now =
     \<lparr>providers = initial_providers now, providersVersion = 0, activeProvider = None,
      isScanning = False, autoFallback = True, events = []\<rparr>"

subsection \<open>The auto-scan effect and the component as a whole\<close>

text \<open>
  The effect at l.244-250 arms a one second timer for \<^verbatim>\<open>scanProviders\<close> and runs again
  whenever \<^verbatim>\<open>scanProviders\<close> changes identity. \<^verbatim>\<open>scanProviders\<close> is a \<^verbatim>\<open>useCallback\<close> over
  \<^verbatim>\<open>[providers, testConnection, onProviderChange, onStatusUpdate]\<close>: the two props keep
  their identity and \<^verbatim>\<open>testConnection\<close> changes only with the timeout setting, so from one
  render to the next \<^verbatim>\<open>scanProviders\<close> changes when \<^verbatim>\<open>providers\<close> does.
  \<open>autoScanEffect envs before after\<close> is the state once the effect has had its turn after
  a transition from \<open>before\<close> to \<open>after\<close>: if the transition replaced \<^verbatim>\<open>providers\<close>, the
  timer is armed anew and \<^verbatim>\<open>scanProviders\<close> runs from \<open>after\<close> (nothing else is taken to
  happen during that second); otherwise nothing runs.
\<close>

definition autoScanEffect :: "(nat \<Rightarrow> probe_env) \<Rightarrow> mcp_state \<Rightarrow> mcp_state \<Rightarrow> mcp_state" where
  "autoScanEffect envs before after =
     (if providersVersion after \<noteq> providersVersion before
      then snd (scanProviders envs after) else after)"

text \<open>A firing of the health check interval, and the turn of the auto-scan effect after it.\<close>

definition healthCheckCycle :: "probe_env \<Rightarrow> (nat \<Rightarrow> probe_env) \<Rightarrow> mcp_state \<Rightarrow> mcp_state" where
  "healthCheckCycle env envs st = autoScanEffect envs st (healthCheck env st)"

text \<open>
  What can happen to the mounted component: a scan (from the refresh button or from the
  auto-scan timer), a click on the button of a registry entry, which is "Disconnect"
  when the entry's status is \<^verbatim>\<open>connected\<close> and "Connect" otherwise, disabled while the
  status is \<^verbatim>\<open>connecting\<close> (l.395-420), a firing of the health check interval followed
  by the auto-scan it arms, and the fallback switch. \<open>component_step\<close> is \<open>None\<close> when the
  rendered state does not offer the action.

  Every pass replaces \<^verbatim>\<open>providers\<close> and so arms the auto-scan timer again, and a pass that
  selects a provider hands a new object to \<^verbatim>\<open>setActiveProvider\<close> and so restarts the
  interval of the health check (l.253-261). \<open>run\<close> does not order the actions by these
  timers: it admits the histories of the mounted component and more, so what holds of
  every state \<open>run\<close> reaches holds of every state the component is in at the end of one of
  these actions.
\<close>

datatype mcp_action =
    Scan "nat \<Rightarrow> probe_env"
  | Connect probe_env MCPProvider
  | Disconnect MCPProvider
  | HealthCheck probe_env "nat \<Rightarrow> probe_env"
  | SetAutoFallback bool

definition offers_connect :: "MCPProvider \<Rightarrow> mcp_state \<Rightarrow> bool" where
  "offers_connect provider st =
     (provider \<in> set (providers st) \<and> p_status provider \<noteq> Connected \<and>
      p_status provider \<noteq> Connecting)"

definition offers_disconnect :: "MCPProvider \<Rightarrow> mcp_state \<Rightarrow> bool" where
  "offers_disconnect provider st =
     (provider \<in> set (providers st) \<and> p_status provider = Connected)"

fun component_step :: "mcp_action \<Rightarrow> mcp_state \<Rightarrow> mcp_state option" where
  "component_step (Scan envs) st = Some (snd (scanProviders envs st))"
| "component_step (Connect env provider) st =
     (if offers_connect provider st then Some (snd (connectToProvider env provider st)) else None)"
| "component_step (Disconnect provider) st =
     (if offers_disconnect provider st then Some (snd (disconnectProvider (p_id provider) st))
      else None)"
| "component_step (HealthCheck env envs) st = Some (healthCheckCycle env envs st)"
| "component_step (SetAutoFallback b) st = Some (st\<lparr>autoFallback := b\<rparr>)"

fun run :: "mcp_action list \<Rightarrow> mcp_state \<Rightarrow> mcp_state option" where
  "run [] st = Some st"
| "run (a # as) st = (case component_step a st of None \<Rightarrow> None | Some st' \<Rightarrow> run as st')"

section \<open>Model detector (src/unnamed/part\_002, ModelDetector)\<close>

datatype ai_provider = Ollama | LMStudio | ZombieCoder | OpenAI | Anthropic | LocalModel

datatype model_status = Available | Loading | MError | Offline

record ModelCapabilities =
  textGeneration :: bool
  codeCompletion :: bool
  translation :: bool
  bengaliSupport :: bool
  voiceProcessing :: bool
  imageAnalysis :: bool
  reasoning :: bool

record ModelPerformance =
  speed :: int
  accuracy :: int
  latency :: int
  memoryUsage :: int
  cpuUsage :: int
  lastBenchmark :: int

record AIModel =
  m_id :: string
  m_name :: string
  m_provider :: ai_provider
  m_version :: string
  m_size :: string
  m_status :: model_status
  m_capabilities :: ModelCapabilities
  m_performance :: ModelPerformance
  m_endpoint :: string
  m_isRecommended :: bool
  m_bengaliScore :: int
  m_overallScore :: int

datatype md_message =
    Testing_model string
  | Scanning_models
  | Selected_with_score string int
  | No_models_available
  | Benchmarking string
  | Benchmark_step string nat nat
  | Benchmark_complete string int
  | Selected string

datatype md_event = ModelStatusUpdate md_message | ModelChange "AIModel option"

record md_state =
  models :: "AIModel list"
  activeModel :: "AIModel option"
  m_isScanning :: bool
  benchmarkMode :: bool
  filterBengali :: bool
  m_events :: "md_event list"

text \<open>
  The environment of one \<^verbatim>\<open>testModel\<close> or \<^verbatim>\<open>benchmarkModel\<close> call extends that of a
  probe with the further values of \<^verbatim>\<open>Math.random()\<close> that simulate the performance
  sample; \<open>random\<close> is the draw that decides the simulated OpenAI check, \<open>ping_time\<close>
  the date stored in \<^verbatim>\<open>lastBenchmark\<close>.
\<close>

record model_env = probe_env +
  random_speed :: real
  random_accuracy :: real
  random_latency :: real
  random_memory :: real
  random_cpu :: real

definition setModels :: "(AIModel list \<Rightarrow> AIModel list) \<Rightarrow> md_state \<Rightarrow> md_state" where
  "setModels f st = st\<lparr>models := f (models st)\<rparr>"

definition setActiveModel :: "AIModel option \<Rightarrow> md_state \<Rightarrow> md_state" where
  "setActiveModel a st = st\<lparr>activeModel := a\<rparr>"

definition setIsScanningModels :: "bool \<Rightarrow> md_state \<Rightarrow> md_state" where
  "setIsScanningModels b st = st\<lparr>m_isScanning := b\<rparr>"

definition setBenchmarkMode :: "bool \<Rightarrow> md_state \<Rightarrow> md_state" where
  "setBenchmarkMode b st = st\<lparr>benchmarkMode := b\<rparr>"

definition onModelStatusUpdate :: "md_message \<Rightarrow> md_state \<Rightarrow> md_state" where
  "onModelStatusUpdate m st = st\<lparr>m_events := m_events st @ [ModelStatusUpdate m]\<rparr>"

text \<open>
  The page binds \<^verbatim>\<open>onModelChange\<close> to \<^verbatim>\<open>handleModelsDetected\<close> (src/unnamed/part\_001
  l.113-117, wired at l.290), which stores its argument and then calls \<^verbatim>\<open>.filter\<close> on it.
  \<^verbatim>\<open>ModelDetector\<close> passes a model or \<^verbatim>\<open>null\<close>, never an array, so that call throws a
  \<^verbatim>\<open>TypeError\<close> in either case. What \<^verbatim>\<open>setDetectedModels\<close> stored is kept as an entry of
  the log.
\<close>

definition setDetectedModels :: "AIModel option \<Rightarrow> md_state \<Rightarrow> md_state" where
  "setDetectedModels a st = st\<lparr>m_events := m_events st @ [ModelChange a]\<rparr>"

definition onModelChange :: "AIModel option \<Rightarrow> (bool, md_state) stmt" where
  "onModelChange a = seq (effect (setDetectedModels a)) (throw TypeError)"

definition mark_model_status :: "string \<Rightarrow> model_status \<Rightarrow> AIModel list \<Rightarrow> AIModel list" where
  "mark_model_status mid s prev = map (\<lambda>m. if m_id m = mid then m\<lparr>m_status := s\<rparr> else m) prev"

definition mark_available :: "string \<Rightarrow> ModelPerformance \<Rightarrow> int \<Rightarrow> AIModel list \<Rightarrow> AIModel list" where
  "mark_available mid perf score prev =
     map (\<lambda>m. if m_id m = mid
               then m\<lparr>m_status := Available, m_performance := perf, m_overallScore := score\<rparr>
               else m) prev"

definition mark_benchmarked :: "string \<Rightarrow> ModelPerformance \<Rightarrow> int \<Rightarrow> AIModel list \<Rightarrow> AIModel list" where
  "mark_benchmarked mid perf score prev =
     map (\<lambda>m. if m_id m = mid then m\<lparr>m_performance := perf, m_overallScore := score\<rparr> else m) prev"

subsection \<open>The score\<close>

text \<open>
  \<^verbatim>\<open>Math.round\<close> rounds to the nearest integer, a half upwards. The arithmetic of the
  score and of the samples is taken over the reals, where the code computes in double
  precision: the two can differ by one where the exact value lies within a rounding
  error of a tie or of an integer. The concrete scores evaluated below are not near one.
\<close>

definition Math_round :: "real \<Rightarrow> int" where
  "Math_round x = \<lfloor>x + 1 / 2\<rfloor>"

text \<open>
  The expression that computes \<^verbatim>\<open>overallScore\<close> in \<^verbatim>\<open>testModel\<close> and
  \<^verbatim>\<open>newOverallScore\<close> in \<^verbatim>\<open>benchmarkModel\<close> (the same text in both, over the sample
  just built and the model's \<^verbatim>\<open>bengaliScore\<close>).
\<close>

definition overallScore :: "ModelPerformance \<Rightarrow> int \<Rightarrow> int" where
  "overallScore performance bengali =
     Math_round
       (real_of_int (speed performance) / 60 * 25 +
        real_of_int (accuracy performance) / 100 * 35 +
        max 0 (100 - real_of_int (latency performance) / 10) / 100 * 20 +
        real_of_int bengali / 100 * 20)"

text \<open>The simulated sample of \<^verbatim>\<open>testModel\<close>, with the measured latency.\<close>

definition simulated_performance :: "model_env \<Rightarrow> ModelPerformance" where
  "simulated_performance env =
     \<lparr>speed = \<lfloor>random_speed env * 50\<rfloor> + 10,
      accuracy = \<lfloor>random_accuracy env * 20\<rfloor> + 80,
      latency = end_time env - start_time env,
      memoryUsage = \<lfloor>random_memory env * 4000\<rfloor> + 1000,
      cpuUsage = \<lfloor>random_cpu env * 60\<rfloor> + 20,
      lastBenchmark = ping_time env\<rparr>"

text \<open>The sample of \<^verbatim>\<open>benchmarkModel\<close> (\<^verbatim>\<open>enhancedPerformance\<close>).\<close>

definition enhancedPerformance :: "model_env \<Rightarrow> ModelPerformance" where
  "enhancedPerformance env =
     \<lparr>speed = \<lfloor>random_speed env * 40\<rfloor> + 20,
      accuracy = \<lfloor>random_accuracy env * 15\<rfloor> + 85,
      latency = \<lfloor>random_latency env * 200\<rfloor> + 50,
      memoryUsage = \<lfloor>random_memory env * 3000\<rfloor> + 2000,
      cpuUsage = \<lfloor>random_cpu env * 50\<rfloor> + 30,
      lastBenchmark = ping_time env\<rparr>"

subsection \<open>testModel\<close>

text \<open>
  The value of \<^verbatim>\<open>response?.ok\<close> after the provider switch, or the exception thrown by
  \<^verbatim>\<open>await fetch\<close>. For the providers without a branch \<^verbatim>\<open>response\<close> stays \<^verbatim>\<open>null\<close>.
\<close>

definition response_ok :: "model_env \<Rightarrow> AIModel \<Rightarrow> exn + bool" where
  "response_ok env model =
     (if m_provider model = Ollama \<or> m_provider model = LMStudio \<or> m_provider model = ZombieCoder
      then fetch_result env
      else if m_provider model = OpenAI then Inr (random env > 1 / 2)
      else Inr False)"

definition model_check :: "model_env \<Rightarrow> AIModel \<Rightarrow> (bool, md_state) stmt" where
  "model_check env model =
     try_catch
       (case response_ok env model of
          Inl e \<Rightarrow> throw e
        | Inr ok \<Rightarrow>
            if ok then
              seq (effect (setModels
                     (mark_available (m_id model) (simulated_performance env)
                        (overallScore (simulated_performance env) (m_bengaliScore model)))))
                  (return True)
            else skip)
       (\<lambda>e. skip)"

definition model_unavailable :: "AIModel \<Rightarrow> (bool, md_state) stmt" where
  "model_unavailable model =
     seq (effect (setModels (mark_model_status (m_id model) MError))) (return False)"

definition testModel :: "model_env \<Rightarrow> AIModel \<Rightarrow> (bool, md_state) stmt" where
  "testModel env model =
     try_catch
       (seq (effect (onModelStatusUpdate (Testing_model (m_name model))))
       (seq (effect (setModels (mark_model_status (m_id model) Loading)))
       (seq (model_check env model)
            (model_unavailable model))))
       (\<lambda>e. model_unavailable model)"

subsection \<open>scanModels, benchmarkModel, selectModel\<close>

fun allSettledModels ::
  "(nat \<Rightarrow> model_env) \<Rightarrow> nat \<Rightarrow> AIModel list \<Rightarrow> md_state \<Rightarrow> bool completion list \<times> md_state" where
  "allSettledModels envs i [] st = ([], st)"
| "allSettledModels envs i (m # ms) st =
     (case testModel (envs i) m st of
        (r, st') \<Rightarrow> (case allSettledModels envs (Suc i) ms st' of (rs, st'') \<Rightarrow> (r # rs, st'')))"

definition availableModels :: "AIModel list \<Rightarrow> bool completion list \<Rightarrow> AIModel list" where
  "availableModels ms results = map fst (filter (\<lambda>(m, r). fulfilled_true r) (zip ms results))"

text \<open>
  \<^verbatim>\<open>availableModels.sort((a, b) => ...)\<close>: descending on \<^verbatim>\<open>bengaliScore\<close> when
  \<^verbatim>\<open>filterBengali\<close> is set, descending on \<^verbatim>\<open>overallScore\<close> otherwise, and stable.
\<close>

definition sortModels :: "bool \<Rightarrow> AIModel list \<Rightarrow> AIModel list" where
  "sortModels bengali ms =
     (if bengali then sort_key (\<lambda>m. - m_bengaliScore m) ms
      else sort_key (\<lambda>m. - m_overallScore m) ms)"

definition scanModels :: "(nat \<Rightarrow> model_env) \<Rightarrow> (bool, md_state) stmt" where
  "scanModels envs st =
     (seq (effect (setIsScanningModels True))
     (seq (effect (onModelStatusUpdate Scanning_models))
     (seq (\<lambda>st1. case allSettledModels envs 0 (models st) st1 of
             (results, st2) \<Rightarrow>
               (case sortModels (filterBengali st) (availableModels (models st) results) of
                  bestModel # _ \<Rightarrow>
                    seq (effect (setActiveModel (Some bestModel)))
                   (seq (onModelChange (Some bestModel))
                        (effect (onModelStatusUpdate
                           (Selected_with_score (m_name bestModel) (m_overallScore bestModel)))))
                | [] \<Rightarrow>
                    seq (effect (setActiveModel None))
                   (seq (onModelChange None)
                        (effect (onModelStatusUpdate No_models_available)))) st2)
          (effect (setIsScanningModels False))))) st"

definition benchmarkTests :: "string list" where
  "benchmarkTests =
     [''Text Generation'', ''Code Completion'', ''Bengali Translation'', ''Reasoning Tasks'',
      ''Performance Test'']"

definition benchmarkModel :: "model_env \<Rightarrow> AIModel \<Rightarrow> (bool, md_state) stmt" where
  "benchmarkModel env model =
     (if m_status model \<noteq> Available then skip
      else
        seq (effect (setBenchmarkMode True))
       (seq (effect (onModelStatusUpdate (Benchmarking (m_name model))))
       (seq (effect (\<lambda>st. fold (\<lambda>i. onModelStatusUpdate
                                  (Benchmark_step (benchmarkTests ! i) (i + 1) (length benchmarkTests)))
                            [0 ..< length benchmarkTests] st))
       (seq (effect (setModels
               (mark_benchmarked (m_id model) (enhancedPerformance env)
                  (overallScore (enhancedPerformance env) (m_bengaliScore model)))))
       (seq (effect (setBenchmarkMode False))
            (effect (onModelStatusUpdate
               (Benchmark_complete (m_name model)
                  (overallScore (enhancedPerformance env) (m_bengaliScore model))))))))))"

definition selectModel :: "AIModel \<Rightarrow> (bool, md_state) stmt" where
  "selectModel model =
     (if m_status model = Available then
        seq (effect (setActiveModel (Some model)))
       (seq (onModelChange (Some model))
            (effect (onModelStatusUpdate (Selected (m_name model)))))
      else skip)"

subsection \<open>initializeModels\<close>

text \<open>The list that \<^verbatim>\<open>initializeModels\<close> stores in \<^verbatim>\<open>models\<close>; \<open>now\<close> is the time of the call.\<close>

definition no_performance :: "int \<Rightarrow> ModelPerformance" where
  "no_performance now =
     \<lparr>speed = 0, accuracy = 0, latency = 0, memoryUsage = 0, cpuUsage = 0, lastBenchmark = now\<rparr>"

definition initialModels :: "int \<Rightarrow> AIModel list" where
  "initialModels now =
    [\<lparr>m_id = ''zombiecoder-bengali-v1'', m_name = ''ZombieCoder Bengali'', m_provider = ZombieCoder,
      m_version = ''1.0.0'', m_size = ''7B'', m_status = Offline,
      m_capabilities = \<lparr>textGeneration = True, codeCompletion = True, translation = True,
        bengaliSupport = True, voiceProcessing = True, imageAnalysis = False, reasoning = True\<rparr>,
      m_performance = no_performance now, m_endpoint = ''http://localhost:8080/api/v1'',
      m_isRecommended = True, m_bengaliScore = 95, m_overallScore = 0\<rparr>,
     \<lparr>m_id = ''ollama-llama3-8b'', m_name = ''Llama 3 8B'', m_provider = Ollama,
      m_version = ''3.0'', m_size = ''8B'', m_status = Offline,
      m_capabilities = \<lparr>textGeneration = True, codeCompletion = True, translation = True,
        bengaliSupport = False, voiceProcessing = False, imageAnalysis = False, reasoning = True\<rparr>,
      m_performance = no_performance now, m_endpoint = ''http://localhost:11434/api'',
      m_isRecommended = False, m_bengaliScore = 30, m_overallScore = 0\<rparr>,
     \<lparr>m_id = ''lmstudio-codellama'', m_name = ''Code Llama'', m_provider = LMStudio,
      m_version = ''7B'', m_size = ''7B'', m_status = Offline,
      m_capabilities = \<lparr>textGeneration = True, codeCompletion = True, translation = False,
        bengaliSupport = False, voiceProcessing = False, imageAnalysis = False, reasoning = True\<rparr>,
      m_performance = no_performance now, m_endpoint = ''http://localhost:1234/v1'',
      m_isRecommended = False, m_bengaliScore = 10, m_overallScore = 0\<rparr>,
     \<lparr>m_id = ''openai-gpt4'', m_name = ''GPT-4'', m_provider = OpenAI,
      m_version = ''4.0'', m_size = ''Unknown'', m_status = Offline,
      m_capabilities = \<lparr>textGeneration = True, codeCompletion = True, translation = True,
        bengaliSupport = True, voiceProcessing = False, imageAnalysis = True, reasoning = True\<rparr>,
      m_performance = no_performance now, m_endpoint = ''https://api.openai.com/v1'',
      m_isRecommended = False, m_bengaliScore = 75, m_overallScore = 0\<rparr>]"

definition initial_md_state :: "int \<Rightarrow> md_state" where
  "initial_md_state now =
     \<lparr>models = initialModels now, activeModel = None, m_isScanning = False,
      benchmarkMode = False, filterBengali = False, m_events = []\<rparr>"

section \<open>Sample environments\<close>

text \<open>
  Environments for concrete runs: an endpoint that answers \<^verbatim>\<open>ok\<close> after \<open>ms\<close>
  milliseconds, one whose \<^verbatim>\<open>fetch\<close> is rejected, and one whose \<^verbatim>\<open>fetch\<close> is aborted
  by the timeout. In the first the draw of \<^verbatim>\<open>Math.random()\<close> lets a cloud provider
  succeed, in the other two it does not.
\<close>

definition env_reachable :: "int \<Rightarrow> probe_env" where
  "env_reachable ms =
     \<lparr>fetch_result = Inr True, random = 1 / 2, start_time = 0, end_time = ms, ping_time = ms\<rparr>"

definition env_unreachable :: probe_env where
  "env_unreachable =
     \<lparr>fetch_result = Inl TypeError, random = 1 / 10, start_time = 0, end_time = 3, ping_time = 3\<rparr>"

definition env_timed_out :: probe_env where
  "env_timed_out =
     \<lparr>fetch_result = Inl AbortError, random = 1 / 10, start_time = 0, end_time = 5000,
      ping_time = 5000\<rparr>"

text \<open>
  The same for a model: \<open>menv_reachable ms s a\<close> answers after \<open>ms\<close> milliseconds and draws
  \<open>s\<close> for the speed and \<open>a\<close> for the accuracy of the simulated sample.
\<close>

definition menv_reachable :: "int \<Rightarrow> real \<Rightarrow> real \<Rightarrow> model_env" where
  "menv_reachable ms s a =
     \<lparr>fetch_result = Inr True, random = 3 / 4, start_time = 0, end_time = ms, ping_time = ms,
      random_speed = s, random_accuracy = a, random_latency = 1 / 2, random_memory = 1 / 2,
      random_cpu = 1 / 2\<rparr>"

definition menv_unreachable :: model_env where
  "menv_unreachable =
     \<lparr>fetch_result = Inl TypeError, random = 1 / 4, start_time = 0, end_time = 3, ping_time = 3,
      random_speed = 0, random_accuracy = 0, random_latency = 0, random_memory = 0,
      random_cpu = 0\<rparr>"

text \<open>
  A run on the built-in registry: the first two providers answer, the other two do not.
  \<open>after_scan\<close> is the state the scan leaves behind.
\<close>

definition two_up :: "nat \<Rightarrow> probe_env" where
  "two_up i = (if i < 2 then env_reachable 20 else env_unreachable)"

definition after_scan :: mcp_state where
  "after_scan = snd (scanProviders two_up (initial_mcp_state 0))"

text \<open>
  A pass over \<open>after_scan\<close> in which the first provider no longer answers and the second
  does.
\<close>

definition first_down :: "nat \<Rightarrow> probe_env" where
  "first_down i = (if i = 1 then env_reachable 5 else env_unreachable)"

text \<open>
  A run of the model detector on the built-in list in which the second and the fourth
  model answer, and the state with the switch "Bengali Only" on.
\<close>

definition llama_and_gpt_up :: "nat \<Rightarrow> model_env" where
  "llama_and_gpt_up i =
     (if i = 1 \<or> i = 3 then menv_reachable 100 (1 / 2) (1 / 2) else menv_unreachable)"

definition bengali_only :: md_state where
  "bengali_only = (initial_md_state 0)\<lparr>filterBengali := True\<rparr>"

text \<open>
  A second environment for a model: it differs from \<open>menv_reachable 100 (1 / 2) (1 / 2)\<close>
  in the clock readings (the same 100 ms apart) and in the draws for the OpenAI check,
  the memory and the CPU usage.
\<close>

definition menv_other :: model_env where
  "menv_other =
     \<lparr>fetch_result = Inr True, random = 9 / 10, start_time = 1000, end_time = 1100,
      ping_time = 1100, random_speed = 1 / 2, random_accuracy = 1 / 2, random_latency = 1 / 2,
      random_memory = 1 / 10, random_cpu = 9 / 10\<rparr>"

text \<open>The first model of the built-in list, as it is once a probe has found it.\<close>

definition zombiecoder_available :: AIModel where
  "zombiecoder_available = (initialModels 0 ! 0)\<lparr>m_status := Available\<rparr>"

text \<open>
  A history of the component: the scan of the built-in registry, a click on "Connect" for
  the third provider, which now answers, and a firing of the health check in which it no
  longer does, followed by a pass in which only the second provider answers.
\<close>

definition sample_run :: "mcp_action list" where
  "sample_run =
     [Scan two_up, Connect (env_reachable 7) (providers after_scan ! 2),
      HealthCheck env_unreachable first_down]"

text \<open>The model registry after a probe has found the first model.\<close>

definition zombiecoder_found :: md_state where
  "zombiecoder_found =
     snd (testModel (menv_reachable 100 (1 / 2) (1 / 2)) (initialModels 0 ! 0) (initial_md_state 0))"

text \<open>The state the model detector is in after the pass \<open>llama_and_gpt_up\<close> on the built-in list.\<close>

definition after_model_scan :: md_state where
  "after_model_scan = snd (scanModels llama_and_gpt_up (initial_md_state 0))"

section \<open>Derived notions used in the statements\<close>

text \<open>
  The state in which the probes of \<^verbatim>\<open>scanProviders\<close> start, and the array \<^verbatim>\<open>results\<close>
  that \<^verbatim>\<open>Promise.allSettled\<close> hands to the selection.
\<close>

definition scan_begin :: "mcp_state \<Rightarrow> mcp_state" where
  "scan_begin st =
     setProviders (map (\<lambda>p. p\<lparr>p_status := Connecting\<rparr>))
       (onStatusUpdate Scanning_providers (setIsScanning True st))"

definition scanResults :: "(nat \<Rightarrow> probe_env) \<Rightarrow> mcp_state \<Rightarrow> bool completion list" where
  "scanResults envs st = fst (allSettled envs 0 (providers st) (scan_begin st))"

definition scanModels_begin :: "md_state \<Rightarrow> md_state" where
  "scanModels_begin st = onModelStatusUpdate Scanning_models (setIsScanningModels True st)"

definition scanModelsResults :: "(nat \<Rightarrow> model_env) \<Rightarrow> md_state \<Rightarrow> bool completion list" where
  "scanModelsResults envs st = fst (allSettledModels envs 0 (models st) (scanModels_begin st))"

text \<open>The value \<^verbatim>\<open>testConnection\<close> returns, read off its branches.\<close>

definition probe_result :: "probe_env \<Rightarrow> MCPProvider \<Rightarrow> bool" where
  "probe_result env p =
     (if p_type p = Local then fetch_result env = Inr True
      else if p_type p = Cloud then random env > 3 / 10
      else False)"

text \<open>The status of the first entry of the registry that carries an id.\<close>

definition status_of :: "string \<Rightarrow> MCPProvider list \<Rightarrow> provider_status option" where
  "status_of pid ps = map_option p_status (find (\<lambda>p. p_id p = pid) ps)"

text \<open>
  The selection is backed by the registry: it is null, or the registry records
  \<^verbatim>\<open>connected\<close> for the id of the active provider.
\<close>

definition selection_connected :: "mcp_state \<Rightarrow> bool" where
  "selection_connected st =
     (case activeProvider st of
        None \<Rightarrow> True
      | Some a \<Rightarrow> status_of (p_id a) (providers st) = Some Connected)"

text \<open>The candidates of the fallback switch in \<^verbatim>\<open>connectToProvider\<close>.\<close>

definition fallbackProviders :: "MCPProvider \<Rightarrow> mcp_state \<Rightarrow> MCPProvider list" where
  "fallbackProviders provider st =
     sort_key p_fallbackOrder
       (filter (\<lambda>p. p_id p \<noteq> p_id provider \<and> p_status p = Connected) (providers st))"

text \<open>
  The part of a registry entry that no updater of \<^verbatim>\<open>setProviders\<close> writes: everything
  but status, latency and last ping.
\<close>

definition descriptor :: "MCPProvider \<Rightarrow> MCPProvider" where
  "descriptor p = p\<lparr>p_status := Disconnected, p_latency := 0, p_lastPing := 0\<rparr>"

text \<open>
  The same for a model of the detector: everything but status, performance sample and
  overall score.
  \<^verbatim>\<open>models\<close> is written by \<^verbatim>\<open>initializeModels\<close> and by updaters that change these three
  fields only, and the component has no prop that supplies a registry, so the registry it
  holds, once \<^verbatim>\<open>initializeModels\<close> has run, carries the descriptors of the built-in list.
\<close>

definition model_descriptor :: "AIModel \<Rightarrow> AIModel" where
  "model_descriptor m =
     m\<lparr>m_status := Offline, m_performance := no_performance 0, m_overallScore := 0\<rparr>"

definition builtin_models :: "md_state \<Rightarrow> bool" where
  "builtin_models st = (map model_descriptor (models st) = initialModels 0)"

section \<open>Statements and completions\<close>

lemma seq_effect [simp]: "seq (effect f) s st = s (f st)"
  by (simp add: seq_def effect_def)

lemma seq_return [simp]: "seq (return v) s st = (Return v, st)"
  by (simp add: seq_def return_def)

lemma seq_throw [simp]: "seq (throw e) s st = (Throw e, st)"
  by (simp add: seq_def throw_def)

lemma seq_skip [simp]: "seq skip s st = s st"
  by (simp add: seq_def skip_def)

lemma effect_apply [simp]: "effect f st = (Normal, f st)"
  by (simp add: effect_def)

lemma return_apply [simp]: "return v st = (Return v, st)"
  by (simp add: return_def)

lemma skip_apply [simp]: "skip st = (Normal, st)"
  by (simp add: skip_def)

lemma throw_apply [simp]: "throw e st = (Throw e, st)"
  by (simp add: throw_def)

lemma try_catch_apply:
  "try_catch body handler st = (case body st of (Throw e, st') \<Rightarrow> handler e st' | r \<Rightarrow> r)"
  by (simp add: try_catch_def)
section \<open>One probe of a provider\<close>

lemma local_check_apply:
  "local_check env p st =
     (if fetch_result env = Inr True
      then (Return True,
            setProviders (mark_connected (p_id p) (end_time env - start_time env) (ping_time env)) st)
      else (Normal, st))"
  by (cases "fetch_result env") (auto simp: local_check_def try_catch_apply)

lemma cloud_check_apply:
  "cloud_check env p st =
     (if random env > 3 / 10
      then (Return True,
            setProviders (mark_connected (p_id p) (end_time env - start_time env) (ping_time env)) st)
      else (Normal, st))"
  by (simp add: cloud_check_def)

lemma testConnection_apply:
  "testConnection env p st =
     (if probe_result env p
      then (Return True,
            setProviders (mark_connected (p_id p) (end_time env - start_time env) (ping_time env))
              (onStatusUpdate (Testing_connection (p_name p)) st))
      else (Return False,
            setProviders (mark_error (p_id p) (ping_time env))
              (onStatusUpdate (Testing_connection (p_name p)) st)))"
  by (simp add: testConnection_def try_catch_apply probe_result_def local_check_apply
      cloud_check_apply connection_failed_def seq_def)
section \<open>The scan of the providers\<close>

lemma allSettled_Cons:
  "allSettled envs i (p # ps) st =
     (fst (testConnection (envs i) p st) #
        fst (allSettled envs (Suc i) ps (snd (testConnection (envs i) p st))),
      snd (allSettled envs (Suc i) ps (snd (testConnection (envs i) p st))))"
  by (simp split: prod.splits)

lemma allSettled_length: "length (fst (allSettled envs i ps st)) = length ps"
  by (induction ps arbitrary: i st) (simp_all add: allSettled_Cons del: allSettled.simps(2))

lemma allSettled_nth:
  "k < length ps \<Longrightarrow>
   fst (allSettled envs i ps st) ! k = Return (probe_result (envs (i + k)) (ps ! k))"
proof (induction ps arbitrary: i st k)
  case Nil
  then show ?case by simp
next
  case (Cons p ps)
  show ?case
  proof (cases k)
    case 0
    then show ?thesis
      by (simp add: allSettled_Cons testConnection_apply del: allSettled.simps(2))
  next
    case (Suc k')
    with Cons.prems have "k' < length ps" by simp
    from Cons.IH[OF this] Suc show ?thesis
      by (simp add: allSettled_Cons del: allSettled.simps(2))
  qed
qed

lemma scanResults_length: "length (scanResults envs st) = length (providers st)"
  by (simp add: scanResults_def allSettled_length)

lemma scanResults_nth:
  "k < length (providers st) \<Longrightarrow>
   scanResults envs st ! k = Return (probe_result (envs k) (providers st ! k))"
  by (simp add: scanResults_def allSettled_nth)

lemma scanProviders_apply:
  "scanProviders envs st =
     (Normal,
      setIsScanning False
        (case connectedProviders (providers st) (scanResults envs st) of
           [] \<Rightarrow> onStatusUpdate No_providers_available
                   (onProviderChange None
                      (setActiveProvider None (snd (allSettled envs 0 (providers st) (scan_begin st)))))
         | bestProvider # _ \<Rightarrow>
             onStatusUpdate (Connected_with_latency (p_name bestProvider) (p_latency bestProvider))
               (onProviderChange (Some bestProvider)
                  (setActiveProvider (Some bestProvider)
                     (snd (allSettled envs 0 (providers st) (scan_begin st)))))))"
  by (simp add: scanProviders_def scan_begin_def scanResults_def seq_def
      split: prod.splits list.splits)

lemma scanProviders_active:
  "activeProvider (snd (scanProviders envs st)) =
     (case connectedProviders (providers st) (scanResults envs st) of
        [] \<Rightarrow> None | bestProvider # _ \<Rightarrow> Some bestProvider)"
  by (simp add: scanProviders_apply setIsScanning_def onStatusUpdate_def
      onProviderChange_def setActiveProvider_def split: list.splits)

lemma scanProviders_normal: "fst (scanProviders envs st) = Normal"
  by (simp add: scanProviders_apply)

lemma scanProviders_isScanning: "isScanning (snd (scanProviders envs st)) = False"
  by (simp add: scanProviders_apply setIsScanning_def)

lemma kept_set:
  "set (map fst (filter (\<lambda>(p, r). fulfilled_true r) (zip ps rs))) =
     {ps ! i | i. i < length ps \<and> i < length rs \<and> rs ! i = Return True}"
  by (force simp: in_set_zip fulfilled_true_def image_iff)

lemma sort_key_head:
  assumes "sort_key f xs = y # ys"
  shows "y \<in> set xs \<and> (\<forall>x \<in> set xs. f y \<le> f x)"
proof -
  have s: "set (y # ys) = set xs" using assms set_sort[of f xs] by simp
  have "sorted (map f (y # ys))" using assms sorted_sort_key[of f xs] by simp
  then have "\<forall>x \<in> set ys. f y \<le> f x" by simp
  with s show ?thesis by auto
qed

lemma sort_key_Nil_iff: "sort_key f xs = [] \<longleftrightarrow> xs = []"
  by (metis length_sort list.size(3) length_0_conv)

section \<open>One probe of a model and the scan of the models\<close>

lemma model_check_apply:
  "model_check env m st =
     (if response_ok env m = Inr True
      then (Return True,
            setModels (mark_available (m_id m) (simulated_performance env)
                         (overallScore (simulated_performance env) (m_bengaliScore m))) st)
      else (Normal, st))"
  by (cases "response_ok env m") (auto simp: model_check_def try_catch_apply)

lemma testModel_apply:
  "testModel env m st =
     (if response_ok env m = Inr True
      then (Return True,
            setModels (mark_available (m_id m) (simulated_performance env)
                         (overallScore (simulated_performance env) (m_bengaliScore m)))
              (setModels (mark_model_status (m_id m) Loading)
                 (onModelStatusUpdate (Testing_model (m_name m)) st)))
      else (Return False,
            setModels (mark_model_status (m_id m) MError)
              (setModels (mark_model_status (m_id m) Loading)
                 (onModelStatusUpdate (Testing_model (m_name m)) st))))"
  by (simp add: testModel_def try_catch_apply model_check_apply model_unavailable_def seq_def)

lemma allSettledModels_Cons:
  "allSettledModels envs i (m # ms) st =
     (fst (testModel (envs i) m st) #
        fst (allSettledModels envs (Suc i) ms (snd (testModel (envs i) m st))),
      snd (allSettledModels envs (Suc i) ms (snd (testModel (envs i) m st))))"
  by (simp split: prod.splits)

lemma allSettledModels_length: "length (fst (allSettledModels envs i ms st)) = length ms"
  by (induction ms arbitrary: i st)
    (simp_all add: allSettledModels_Cons del: allSettledModels.simps(2))

lemma allSettledModels_nth:
  "k < length ms \<Longrightarrow>
   fst (allSettledModels envs i ms st) ! k = Return (response_ok (envs (i + k)) (ms ! k) = Inr True)"
proof (induction ms arbitrary: i st k)
  case Nil
  then show ?case by simp
next
  case (Cons m ms)
  show ?case
  proof (cases k)
    case 0
    then show ?thesis
      by (simp add: allSettledModels_Cons testModel_apply del: allSettledModels.simps(2))
  next
    case (Suc k')
    with Cons.prems have "k' < length ms" by simp
    from Cons.IH[OF this] Suc show ?thesis
      by (simp add: allSettledModels_Cons del: allSettledModels.simps(2))
  qed
qed

lemma scanModelsResults_length: "length (scanModelsResults envs st) = length (models st)"
  by (simp add: scanModelsResults_def allSettledModels_length)

lemma scanModelsResults_nth:
  "k < length (models st) \<Longrightarrow>
   scanModelsResults envs st ! k = Return (response_ok (envs k) (models st ! k) = Inr True)"
  by (simp add: scanModelsResults_def allSettledModels_nth)

lemma onModelChange_apply [simp]:
  "onModelChange a st = (Throw TypeError, setDetectedModels a st)"
  by (simp add: onModelChange_def)

lemma seq_onModelChange [simp]:
  "seq (onModelChange a) s st = (Throw TypeError, setDetectedModels a st)"
  by (simp add: seq_def)

lemma scanModels_apply:
  "scanModels envs st =
     (Throw TypeError,
      (case sortModels (filterBengali st) (availableModels (models st) (scanModelsResults envs st)) of
         [] \<Rightarrow> setDetectedModels None
                 (setActiveModel None
                    (snd (allSettledModels envs 0 (models st) (scanModels_begin st))))
       | bestModel # _ \<Rightarrow>
           setDetectedModels (Some bestModel)
             (setActiveModel (Some bestModel)
                (snd (allSettledModels envs 0 (models st) (scanModels_begin st))))))"
  by (simp add: scanModels_def scanModels_begin_def scanModelsResults_def seq_def
      split: prod.splits list.splits)

lemma scanModels_active:
  "activeModel (snd (scanModels envs st)) =
     (case sortModels (filterBengali st) (availableModels (models st) (scanModelsResults envs st)) of
        [] \<Rightarrow> None | bestModel # _ \<Rightarrow> Some bestModel)"
  by (simp add: scanModels_apply setDetectedModels_def setActiveModel_def split: list.splits)

lemma scanModels_models:
  "models (snd (scanModels envs st)) =
     models (snd (allSettledModels envs 0 (models st) (scanModels_begin st)))"
  by (simp add: scanModels_apply setDetectedModels_def setActiveModel_def split: list.splits)

lemma scanModels_throws: "fst (scanModels envs st) = Throw TypeError"
  by (simp add: scanModels_apply)

lemma sortModels_Nil_iff: "sortModels b ms = [] \<longleftrightarrow> ms = []"
  by (simp add: sortModels_def sort_key_Nil_iff)

lemma sortModels_head:
  assumes "sortModels b ms = y # ys"
  shows "y \<in> set ms \<and>
         (\<forall>x \<in> set ms. if b then m_bengaliScore x \<le> m_bengaliScore y
                        else m_overallScore x \<le> m_overallScore y)"
proof (cases b)
  case True
  with assms have "sort_key (\<lambda>m. - m_bengaliScore m) ms = y # ys" by (simp add: sortModels_def)
  from sort_key_head[OF this] True show ?thesis by simp
next
  case False
  with assms have "sort_key (\<lambda>m. - m_overallScore m) ms = y # ys" by (simp add: sortModels_def)
  from sort_key_head[OF this] False show ?thesis by simp
qed

lemma connectedProviders_Nil_iff:
  "connectedProviders ps rs = [] \<longleftrightarrow>
     (\<forall>i. i < length ps \<and> i < length rs \<longrightarrow> rs ! i \<noteq> Return True)"
proof -
  have "connectedProviders ps rs = [] \<longleftrightarrow>
          set (map fst (filter (\<lambda>(p, r). fulfilled_true r) (zip ps rs))) = {}"
    by (simp only: connectedProviders_def sort_key_Nil_iff set_empty)
  then show ?thesis unfolding kept_set by auto
qed

lemma connectedProviders_head:
  assumes "connectedProviders ps rs = b # bs"
  shows "(\<exists>i. i < length ps \<and> i < length rs \<and> rs ! i = Return True \<and> b = ps ! i) \<and>
         (\<forall>i. i < length ps \<and> i < length rs \<and> rs ! i = Return True \<longrightarrow>
              p_priority b \<le> p_priority (ps ! i))"
proof -
  let ?kept = "map fst (filter (\<lambda>(p, r). fulfilled_true r) (zip ps rs))"
  from assms have "sort_key p_priority ?kept = b # bs" by (simp add: connectedProviders_def)
  from sort_key_head[OF this]
  have "b \<in> set ?kept" and "\<forall>x \<in> set ?kept. p_priority b \<le> p_priority x" by simp_all
  then show ?thesis unfolding kept_set by blast
qed

lemma availableModels_set:
  "set (availableModels ms rs) =
     {ms ! i | i. i < length ms \<and> i < length rs \<and> rs ! i = Return True}"
  by (simp only: availableModels_def kept_set)

lemma scanProviders_events_null:
  "connectedProviders (providers st) (scanResults envs st) = [] \<Longrightarrow>
   \<exists>es. events (snd (scanProviders envs st)) =
           es @ [ProviderChange None, StatusUpdate No_providers_available]"
  by (simp add: scanProviders_apply setIsScanning_def onStatusUpdate_def
      onProviderChange_def setActiveProvider_def)

section \<open>Claims about the scan and the selection\<close>

lemma scanProviders_none_reachable:
  assumes "\<forall>i < length (providers st). scanResults envs st ! i \<noteq> Return True"
  shows "fst (scanProviders envs st) = Normal \<and>
         activeProvider (snd (scanProviders envs st)) = None \<and>
         isScanning (snd (scanProviders envs st)) = False \<and>
         (\<exists>es. events (snd (scanProviders envs st)) =
                 es @ [ProviderChange None, StatusUpdate No_providers_available])"
proof -
  from assms have nil: "connectedProviders (providers st) (scanResults envs st) = []"
    by (simp add: connectedProviders_Nil_iff)
  have "activeProvider (snd (scanProviders envs st)) = None"
    by (simp add: scanProviders_active nil)
  with scanProviders_normal[of envs st] scanProviders_isScanning[of envs st]
       scanProviders_events_null[OF nil]
  show ?thesis by simp
qed

lemma isScanning_testModel [simp]:
  "m_isScanning (snd (testModel env m st)) = m_isScanning st"
  by (simp add: testModel_apply setModels_def onModelStatusUpdate_def)

lemma isScanning_allSettledModels [simp]:
  "m_isScanning (snd (allSettledModels envs i ms st)) = m_isScanning st"
  by (induction ms arbitrary: i st)
     (simp_all add: allSettledModels_Cons del: allSettledModels.simps(2))

lemma scanModels_isScanning: "m_isScanning (snd (scanModels envs st)) = True"
  by (simp add: scanModels_apply setDetectedModels_def setActiveModel_def scanModels_begin_def
      onModelStatusUpdate_def setIsScanningModels_def split: list.splits)

lemma status_events_testModel:
  "ModelStatusUpdate No_models_available \<in> set (m_events (snd (testModel env m st))) \<longleftrightarrow>
   ModelStatusUpdate No_models_available \<in> set (m_events st)"
  by (simp add: testModel_apply setModels_def onModelStatusUpdate_def)

lemma status_events_allSettledModels:
  "ModelStatusUpdate No_models_available \<in> set (m_events (snd (allSettledModels envs i ms st))) \<longleftrightarrow>
   ModelStatusUpdate No_models_available \<in> set (m_events st)"
  by (induction ms arbitrary: i st)
     (simp_all add: allSettledModels_Cons status_events_testModel del: allSettledModels.simps(2))

text \<open>
  Whatever the probes report, \<^verbatim>\<open>scanModels\<close> does not complete: the handler bound to
  \<^verbatim>\<open>onModelChange\<close> throws, the promise of the scan is rejected, the scanning flag stays
  set and the scan reports no result that was not reported before.
\<close>

lemma scanModels_rejects:
  "fst (scanModels envs st) = Throw TypeError \<and>
   m_isScanning (snd (scanModels envs st)) = True \<and>
   (ModelStatusUpdate No_models_available \<in> set (m_events (snd (scanModels envs st))) \<longleftrightarrow>
    ModelStatusUpdate No_models_available \<in> set (m_events st))"
  by (simp add: scanModels_throws scanModels_isScanning)
     (simp add: scanModels_apply setDetectedModels_def setActiveModel_def scanModels_begin_def
        onModelStatusUpdate_def setIsScanningModels_def status_events_allSettledModels
        split: list.splits)

text \<open>
  Claim C3. Priority dominates: when two providers \<open>i\<close> and \<open>j\<close> of the registry both
  probe reachable and \<open>i\<close> has the strictly lower priority number, the scan selects a
  provider whose priority number is at most that of \<open>i\<close>, hence never \<open>j\<close>; when these
  two are the only reachable ones it selects \<open>i\<close>. Nothing is assumed about the latency
  or any other field of the two, so no measurement can reverse the order.
\<close>

theorem priority_dominates:
  assumes "i < length (providers st)" and "j < length (providers st)"
    and "scanResults envs st ! i = Return True" and "scanResults envs st ! j = Return True"
    and "p_priority (providers st ! i) < p_priority (providers st ! j)"
  shows "\<exists>best. activeProvider (snd (scanProviders envs st)) = Some best \<and>
           p_priority best \<le> p_priority (providers st ! i) \<and>
           best \<noteq> providers st ! j \<and>
           ((\<forall>k < length (providers st). scanResults envs st ! k = Return True \<longrightarrow> k = i \<or> k = j)
              \<longrightarrow> best = providers st ! i)"
proof -
  let ?ps = "providers st" and ?rs = "scanResults envs st"
  have len: "length ?rs = length ?ps" by (rule scanResults_length)
  from assms(1,3) len have "connectedProviders ?ps ?rs \<noteq> []"
    by (auto simp: connectedProviders_Nil_iff)
  then obtain best bs where c: "connectedProviders ?ps ?rs = best # bs"
    by (cases "connectedProviders ?ps ?rs") auto
  from connectedProviders_head[OF c] obtain k where
    k: "k < length ?ps" "?rs ! k = Return True" "best = ?ps ! k"
    and le: "\<forall>i. i < length ?ps \<and> i < length ?rs \<and> ?rs ! i = Return True \<longrightarrow>
              p_priority best \<le> p_priority (?ps ! i)"
    by blast
  from le assms(1,3) len have 1: "p_priority best \<le> p_priority (?ps ! i)" by simp
  with assms(5) have 2: "best \<noteq> ?ps ! j" by auto
  have 3: "(\<forall>k < length ?ps. ?rs ! k = Return True \<longrightarrow> k = i \<or> k = j) \<longrightarrow> best = ?ps ! i"
    using k 2 by auto
  have "activeProvider (snd (scanProviders envs st)) = Some best"
    by (simp add: scanProviders_active c)
  with 1 2 3 show ?thesis by blast
qed

text \<open>
  Claim C10. \<^verbatim>\<open>disconnectProvider\<close> changes nothing but the status field of the entries
  that carry the given id, which becomes \<^verbatim>\<open>disconnected\<close>; every other entry and every
  other state cell is unchanged. When the id is not that of the active provider the
  selection stays as it was and no event is emitted; when it is, the selection becomes
  null.
\<close>

theorem disconnectProvider_frame:
  "fst (disconnectProvider pid st) = Normal \<and>
   length (providers (snd (disconnectProvider pid st))) = length (providers st) \<and>
   (\<forall>i < length (providers st).
      providers (snd (disconnectProvider pid st)) ! i =
        (if p_id (providers st ! i) = pid then (providers st ! i)\<lparr>p_status := Disconnected\<rparr>
         else providers st ! i)) \<and>
   isScanning (snd (disconnectProvider pid st)) = isScanning st \<and>
   autoFallback (snd (disconnectProvider pid st)) = autoFallback st \<and>
   (map_option p_id (activeProvider st) \<noteq> Some pid \<longrightarrow>
      activeProvider (snd (disconnectProvider pid st)) = activeProvider st \<and>
      events (snd (disconnectProvider pid st)) = events st) \<and>
   (map_option p_id (activeProvider st) = Some pid \<longrightarrow>
      activeProvider (snd (disconnectProvider pid st)) = None \<and>
      events (snd (disconnectProvider pid st)) =
        events st @ [ProviderChange None, StatusUpdate Disconnected_from_provider])"
  by (simp add: disconnectProvider_def setProviders_def mark_status_def setActiveProvider_def
      onProviderChange_def onStatusUpdate_def)

section \<open>Concrete runs\<close>

lemmas mcp_eval =
  scanProviders_def testConnection_apply probe_result_def seq_def
  connectedProviders_def fulfilled_true_def setProviders_def setActiveProvider_def
  setIsScanning_def onStatusUpdate_def onProviderChange_def mark_connected_def mark_error_def
  mark_status_def initial_mcp_state_def initial_providers_def two_up_def env_reachable_def
  env_unreachable_def env_timed_out_def

lemma after_scan_active:
  "activeProvider after_scan = Some (initial_providers 0 ! 0)"
  by (simp add: after_scan_def mcp_eval)

lemma after_scan_statuses:
  "map (\<lambda>p. (p_id p, p_status p)) (providers after_scan) =
     [(''zombiecoder-local'', Connected), (''ollama-local'', Connected),
      (''lmstudio-local'', PError), (''openai-cloud'', PError)]"
  by (simp add: after_scan_def mcp_eval)

lemma scanResults_all_down:
  "scanResults (\<lambda>i. env_unreachable) (initial_mcp_state 0) =
     [Return False, Return False, Return False, Return False]"
  by (rule nth_equalityI)
     (auto simp: scanResults_length scanResults_nth initial_mcp_state_def initial_providers_def
        probe_result_def env_unreachable_def less_Suc_eq nth_Cons')

lemma scanModelsResults_all_down:
  "scanModelsResults (\<lambda>i. menv_unreachable) (initial_md_state 0) =
     [Return False, Return False, Return False, Return False]"
  by (rule nth_equalityI)
     (auto simp: scanModelsResults_length scanModelsResults_nth initial_md_state_def
        initialModels_def response_ok_def menv_unreachable_def less_Suc_eq nth_Cons')

text \<open>
  Claim C2. When no endpoint probes as reachable, a pass should set the selection to
  null and return normally. The scan of the providers does (lemma
  \<open>scanProviders_none_reachable\<close>). The scan of the models does not: on the built-in list
  with no model answering it sets the selection to null and hands \<^verbatim>\<open>null\<close> to
  \<^verbatim>\<open>onModelChange\<close>, whose handler throws; the scan ends with completion
  \<open>Throw TypeError\<close>, "No AI models available" is not reported and the scanning flag
  stays set. The scan of the providers, run on the built-in registry with no provider
  answering, ends with completion \<open>Normal\<close>.
\<close>

theorem scanModels_null_rejects:
  "scanModelsResults (\<lambda>i. menv_unreachable) (initial_md_state 0) =
     [Return False, Return False, Return False, Return False] \<and>
   fst (scanModels (\<lambda>i. menv_unreachable) (initial_md_state 0)) = Throw TypeError \<and>
   activeModel (snd (scanModels (\<lambda>i. menv_unreachable) (initial_md_state 0))) = None \<and>
   m_isScanning (snd (scanModels (\<lambda>i. menv_unreachable) (initial_md_state 0))) = True \<and>
   ModelStatusUpdate No_models_available \<notin>
     set (m_events (snd (scanModels (\<lambda>i. menv_unreachable) (initial_md_state 0)))) \<and>
   fst (scanProviders (\<lambda>i. env_unreachable) (initial_mcp_state 0)) = Normal \<and>
   activeProvider (snd (scanProviders (\<lambda>i. env_unreachable) (initial_mcp_state 0))) = None \<and>
   isScanning (snd (scanProviders (\<lambda>i. env_unreachable) (initial_mcp_state 0))) = False"
proof -
  let ?st = "initial_md_state 0" and ?envs = "\<lambda>i::nat. menv_unreachable"
  have e: "m_events ?st = []" by (simp add: initial_md_state_def)
  have "Return True \<notin> set (scanModelsResults ?envs ?st)"
    by (simp add: scanModelsResults_all_down)
  then have "set (availableModels (models ?st) (scanModelsResults ?envs ?st)) = {}"
    unfolding availableModels_set by (auto simp: in_set_conv_nth)
  then have "sortModels (filterBengali ?st)
               (availableModels (models ?st) (scanModelsResults ?envs ?st)) = []"
    by (simp add: sortModels_Nil_iff)
  then have a: "activeModel (snd (scanModels ?envs ?st)) = None"
    by (simp add: scanModels_active)
  have "Return True \<notin> set (scanResults (\<lambda>i. env_unreachable) (initial_mcp_state 0))"
    by (simp add: scanResults_all_down)
  then have "\<forall>i < length (providers (initial_mcp_state 0)).
               scanResults (\<lambda>i. env_unreachable) (initial_mcp_state 0) ! i \<noteq> Return True"
    by (metis nth_mem scanResults_length)
  from scanProviders_none_reachable[OF this] scanModels_rejects[of ?envs ?st] a e
  show ?thesis by (simp add: scanModelsResults_all_down)
qed

lemma scanResults_two_up:
  "scanResults two_up (initial_mcp_state 0) =
     [Return True, Return True, Return False, Return False]"
  by (rule nth_equalityI)
     (auto simp: scanResults_length scanResults_nth initial_mcp_state_def initial_providers_def
        probe_result_def env_unreachable_def env_reachable_def two_up_def less_Suc_eq nth_Cons')

theorem priority_dominates_witness:
  "scanResults two_up (initial_mcp_state 0) =
     [Return True, Return True, Return False, Return False] \<and>
   p_priority (providers (initial_mcp_state 0) ! 0) = 1 \<and>
   p_priority (providers (initial_mcp_state 0) ! 1) = 2 \<and>
   activeProvider (snd (scanProviders two_up (initial_mcp_state 0))) =
     Some (providers (initial_mcp_state 0) ! 0)"
proof -
  let ?st = "initial_mcp_state 0"
  have p: "p_priority (providers ?st ! 0) = 1" "p_priority (providers ?st ! Suc 0) = 2"
    "length (providers ?st) = 4"
    by (simp_all add: initial_mcp_state_def initial_providers_def)
  have only: "\<forall>k < length (providers ?st). scanResults two_up ?st ! k = Return True \<longrightarrow> k = 0 \<or> k = 1"
    by (auto simp: scanResults_two_up p nth_Cons' split: if_splits)
  have "\<exists>best. activeProvider (snd (scanProviders two_up ?st)) = Some best \<and>
           p_priority best \<le> p_priority (providers ?st ! 0) \<and>
           best \<noteq> providers ?st ! 1 \<and>
           ((\<forall>k < length (providers ?st). scanResults two_up ?st ! k = Return True \<longrightarrow> k = 0 \<or> k = 1)
              \<longrightarrow> best = providers ?st ! 0)"
    by (rule priority_dominates[of 0 ?st 1 two_up]) (simp_all add: p scanResults_two_up)
  with only have "activeProvider (snd (scanProviders two_up ?st)) = Some (providers ?st ! 0)"
    by blast
  with p show ?thesis by (simp add: scanResults_two_up)
qed

theorem disconnectProvider_frame_witness:
  "activeProvider after_scan = Some (initial_providers 0 ! 0) \<and>
   map (\<lambda>p. (p_id p, p_status p)) (providers after_scan) =
     [(''zombiecoder-local'', Connected), (''ollama-local'', Connected),
      (''lmstudio-local'', PError), (''openai-cloud'', PError)] \<and>
   activeProvider (snd (disconnectProvider ''ollama-local'' after_scan)) =
     Some (initial_providers 0 ! 0) \<and>
   events (snd (disconnectProvider ''ollama-local'' after_scan)) = events after_scan \<and>
   providers (snd (disconnectProvider ''ollama-local'' after_scan)) ! 0 = providers after_scan ! 0 \<and>
   providers (snd (disconnectProvider ''ollama-local'' after_scan)) ! 1 =
     (providers after_scan ! 1)\<lparr>p_status := Disconnected\<rparr> \<and>
   activeProvider (snd (disconnectProvider ''zombiecoder-local'' after_scan)) = None"
proof -
  have ids: "p_id (providers after_scan ! 0) = ''zombiecoder-local''"
    "p_id (providers after_scan ! Suc 0) = ''ollama-local''"
    "length (providers after_scan) = 4"
    "map_option p_id (activeProvider after_scan) = Some ''zombiecoder-local''"
    by (simp_all add: after_scan_def mcp_eval)
  from disconnectProvider_frame[of "''ollama-local''" after_scan]
       disconnectProvider_frame[of "''zombiecoder-local''" after_scan] ids
  show ?thesis
    by (simp add: after_scan_active after_scan_statuses)
qed

section \<open>Claims about a single probe\<close>

lemma testConnection_providers:
  "providers (snd (testConnection env p st)) =
     (if probe_result env p
      then mark_connected (p_id p) (end_time env - start_time env) (ping_time env) (providers st)
      else mark_error (p_id p) (ping_time env) (providers st))"
  by (simp add: testConnection_apply setProviders_def onStatusUpdate_def)

lemma testModel_models:
  "models (snd (testModel env m st)) =
     (if response_ok env m = Inr True
      then mark_available (m_id m) (simulated_performance env)
             (overallScore (simulated_performance env) (m_bengaliScore m))
             (mark_model_status (m_id m) Loading (models st))
      else mark_model_status (m_id m) MError (mark_model_status (m_id m) Loading (models st)))"
  by (simp add: testModel_apply setModels_def onModelStatusUpdate_def)

text \<open>
  Claim C6. A probe never throws: \<^verbatim>\<open>testConnection\<close> and \<^verbatim>\<open>testModel\<close> always complete
  by returning a boolean, so their promises are never rejected. When the underlying
  \<^verbatim>\<open>fetch\<close> raises an exception \<open>e\<close>, the probe returns \<^verbatim>\<open>false\<close> and the failure is
  recorded as data: every entry of the registry with the probed id has status
  \<^verbatim>\<open>error\<close>.
\<close>

theorem probe_failure_is_data:
  "(\<exists>b. fst (testConnection env p st) = Return b) \<and>
   (\<exists>b. fst (testModel menv m mst) = Return b) \<and>
   (p_type p = Local \<and> fetch_result env = Inl e \<longrightarrow>
      fst (testConnection env p st) = Return False \<and>
      (\<forall>x \<in> set (providers (snd (testConnection env p st))).
         p_id x = p_id p \<longrightarrow> p_status x = PError)) \<and>
   ((m_provider m = Ollama \<or> m_provider m = LMStudio \<or> m_provider m = ZombieCoder) \<and>
    fetch_result menv = Inl e' \<longrightarrow>
      fst (testModel menv m mst) = Return False \<and>
      (\<forall>x \<in> set (models (snd (testModel menv m mst))).
         m_id x = m_id m \<longrightarrow> m_status x = MError))"
proof (intro conjI impI)
  show "\<exists>b. fst (testConnection env p st) = Return b"
    by (cases "probe_result env p") (auto simp: testConnection_apply)
  show "\<exists>b. fst (testModel menv m mst) = Return b"
    by (cases "response_ok menv m = Inr True") (auto simp: testModel_apply)
next
  assume "p_type p = Local \<and> fetch_result env = Inl e"
  then have no: "\<not> probe_result env p" by (simp add: probe_result_def)
  then show "fst (testConnection env p st) = Return False"
    by (simp add: testConnection_apply)
  from no show "\<forall>x \<in> set (providers (snd (testConnection env p st))).
                  p_id x = p_id p \<longrightarrow> p_status x = PError"
    by (auto simp: testConnection_providers mark_error_def)
next
  assume "(m_provider m = Ollama \<or> m_provider m = LMStudio \<or> m_provider m = ZombieCoder) \<and>
          fetch_result menv = Inl e'"
  then have no: "response_ok menv m \<noteq> Inr True" by (auto simp: response_ok_def)
  then show "fst (testModel menv m mst) = Return False"
    by (simp add: testModel_apply)
  from no show "\<forall>x \<in> set (models (snd (testModel menv m mst))).
                  m_id x = m_id m \<longrightarrow> m_status x = MError"
    by (auto simp: testModel_models mark_model_status_def)
qed

theorem probe_failure_is_data_witness:
  "p_type (initial_providers 0 ! 0) = Local \<and> fetch_result env_timed_out = Inl AbortError \<and>
   fst (testConnection env_timed_out (initial_providers 0 ! 0) (initial_mcp_state 0)) = Return False \<and>
   status_of ''zombiecoder-local''
     (providers (snd (testConnection env_timed_out (initial_providers 0 ! 0) (initial_mcp_state 0))))
     = Some PError \<and>
   m_provider (initialModels 0 ! 0) = ZombieCoder \<and> fetch_result menv_unreachable = Inl TypeError \<and>
   fst (testModel menv_unreachable (initialModels 0 ! 0) (initial_md_state 0)) = Return False \<and>
   map m_status (models (snd (testModel menv_unreachable (initialModels 0 ! 0) (initial_md_state 0))))
     = [MError, Offline, Offline, Offline]"
proof -
  have h: "p_type (initial_providers 0 ! 0) = Local" "fetch_result env_timed_out = Inl AbortError"
    "m_provider (initialModels 0 ! 0) = ZombieCoder" "fetch_result menv_unreachable = Inl TypeError"
    by (simp_all add: initial_providers_def env_timed_out_def initialModels_def menv_unreachable_def)
  have s: "status_of ''zombiecoder-local''
     (providers (snd (testConnection env_timed_out (initial_providers 0 ! 0) (initial_mcp_state 0))))
     = Some PError"
    by (simp add: status_of_def mcp_eval)
  have t: "map m_status (models (snd (testModel menv_unreachable (initialModels 0 ! 0) (initial_md_state 0))))
     = [MError, Offline, Offline, Offline]"
    by (simp add: testModel_models response_ok_def menv_unreachable_def initialModels_def
        initial_md_state_def mark_model_status_def)
  from probe_failure_is_data[of env_timed_out "initial_providers 0 ! 0" "initial_mcp_state 0"
      menv_unreachable "initialModels 0 ! 0" "initial_md_state 0" AbortError TypeError] h s t
  show ?thesis by simp
qed
section \<open>The status recorded for an id\<close>

lemma find_map_same_id:
  assumes "\<And>p. p_id (g p) = p_id p"
  shows "find (\<lambda>p. p_id p = q) (map (\<lambda>p. if p_id p = pid then g p else p) xs) =
           map_option (\<lambda>p. if p_id p = pid then g p else p) (find (\<lambda>p. p_id p = q) xs)"
  by (induction xs) (simp_all add: assms)

lemma status_of_update:
  assumes "\<And>p. p_id (g p) = p_id p" and "\<And>p. p_status (g p) = s"
  shows "status_of q (map (\<lambda>p. if p_id p = pid then g p else p) xs) =
           (if q = pid \<and> q \<in> p_id ` set xs then Some s else status_of q xs)"
proof -
  have f: "find (\<lambda>p. p_id p = q) xs = None \<longleftrightarrow> q \<notin> p_id ` set xs"
    by (auto simp: find_None_iff)
  show ?thesis
  proof (cases "find (\<lambda>p. p_id p = q) xs")
    case None
    with f show ?thesis
      by (simp add: status_of_def find_map_same_id[of g, OF assms(1)])
  next
    case (Some x)
    then have "p_id x = q" by (auto simp: find_Some_iff)
    moreover from Some f have "q \<in> p_id ` set xs" by auto
    ultimately show ?thesis using Some
      by (simp add: status_of_def find_map_same_id[of g, OF assms(1)] assms(2))
  qed
qed

lemma status_of_mark_connected:
  "status_of q (mark_connected pid lat now xs) =
     (if q = pid \<and> q \<in> p_id ` set xs then Some Connected else status_of q xs)"
  unfolding mark_connected_def by (rule status_of_update) simp_all

lemma status_of_mark_error:
  "status_of q (mark_error pid now xs) =
     (if q = pid \<and> q \<in> p_id ` set xs then Some PError else status_of q xs)"
  unfolding mark_error_def by (rule status_of_update) simp_all

lemma status_of_mark_status:
  "status_of q (mark_status pid s xs) =
     (if q = pid \<and> q \<in> p_id ` set xs then Some s else status_of q xs)"
  unfolding mark_status_def by (rule status_of_update) simp_all

lemma ids_mark_connected [simp]: "map p_id (mark_connected pid lat now xs) = map p_id xs"
  by (simp add: mark_connected_def)

lemma ids_mark_error [simp]: "map p_id (mark_error pid now xs) = map p_id xs"
  by (simp add: mark_error_def)

lemma ids_mark_status [simp]: "map p_id (mark_status pid s xs) = map p_id xs"
  by (simp add: mark_status_def)

lemma ids_testConnection [simp]:
  "map p_id (providers (snd (testConnection env p st))) = map p_id (providers st)"
  by (simp add: testConnection_providers)

lemma ids_allSettled [simp]:
  "map p_id (providers (snd (allSettled envs i ps st))) = map p_id (providers st)"
  by (induction ps arbitrary: i st) (simp_all add: allSettled_Cons del: allSettled.simps(2))

lemma status_of_testConnection:
  "status_of q (providers (snd (testConnection env p st))) =
     (if q = p_id p \<and> q \<in> p_id ` set (providers st)
      then Some (if probe_result env p then Connected else PError)
      else status_of q (providers st))"
  by (cases "probe_result env p")
     (auto simp: testConnection_providers status_of_mark_connected status_of_mark_error)

lemma status_of_allSettled_other:
  "q \<notin> p_id ` set ps \<Longrightarrow>
   status_of q (providers (snd (allSettled envs i ps st))) = status_of q (providers st)"
  by (induction ps arbitrary: i st)
     (simp_all add: allSettled_Cons status_of_testConnection del: allSettled.simps(2))

lemma set_ids: "p_id ` set xs = set (map p_id xs)"
  by simp

lemma status_of_allSettled:
  assumes "distinct (map p_id ps)" and "k < length ps"
    and "p_id (ps ! k) \<in> p_id ` set (providers st)"
  shows "status_of (p_id (ps ! k)) (providers (snd (allSettled envs i ps st))) =
           Some (if probe_result (envs (i + k)) (ps ! k) then Connected else PError)"
  using assms
proof (induction ps arbitrary: i st k)
  case Nil
  then show ?case by simp
next
  case (Cons p ps)
  let ?st' = "snd (testConnection (envs i) p st)"
  show ?case
  proof (cases k)
    case 0
    from Cons.prems(1) have "p_id p \<notin> p_id ` set ps" by auto
    from status_of_allSettled_other[OF this, of envs "Suc i" ?st'] 0 Cons.prems(3)
    show ?thesis
      by (simp add: allSettled_Cons status_of_testConnection del: allSettled.simps(2))
  next
    case (Suc k')
    with Cons.prems have d: "distinct (map p_id ps)" and k': "k' < length ps" by simp_all
    have "p_id ` set (providers ?st') = p_id ` set (providers st)"
      unfolding set_ids by simp
    with Cons.prems(3) Suc have "p_id (ps ! k') \<in> p_id ` set (providers ?st')" by simp
    from Cons.IH[OF d k' this, of "Suc i"] Suc show ?thesis
      by (simp add: allSettled_Cons del: allSettled.simps(2))
  qed
qed

lemma find_distinct_id:
  "distinct (map p_id xs) \<Longrightarrow> f \<in> set xs \<Longrightarrow> find (\<lambda>p. p_id p = p_id f) xs = Some f"
  by (induction xs) (auto simp: image_iff)

section \<open>The health check and the pass it brings about\<close>

lemma healthCheck_Some:
  "activeProvider st = Some a \<Longrightarrow>
   healthCheck env st =
     (if probe_result env a
      then setProviders (mark_connected (p_id a) (end_time env - start_time env) (ping_time env))
             (onStatusUpdate (Testing_connection (p_name a)) st)
      else setProviders (mark_error (p_id a) (ping_time env))
             (onStatusUpdate (Testing_connection (p_name a)) st))"
  by (simp add: healthCheck_def testConnection_apply)

lemma healthCheck_active: "activeProvider (healthCheck env st) = activeProvider st"
proof (cases "activeProvider st")
  case None
  then show ?thesis by (simp add: healthCheck_def)
next
  case (Some a)
  show ?thesis
    by (simp add: healthCheck_Some[OF Some] Some setProviders_def onStatusUpdate_def)
qed

lemma healthCheck_version:
  "activeProvider st = Some a \<Longrightarrow>
   providersVersion (healthCheck env st) = Suc (providersVersion st)"
  by (simp add: healthCheck_Some setProviders_def onStatusUpdate_def)

lemma healthCheck_length [simp]:
  "length (providers (healthCheck env st)) = length (providers st)"
  by (cases "activeProvider st")
     (simp_all add: healthCheck_def testConnection_providers mark_connected_def mark_error_def)

lemma healthCheckCycle_Some:
  "activeProvider st = Some a \<Longrightarrow>
   healthCheckCycle env envs st = snd (scanProviders envs (healthCheck env st))"
  by (simp add: healthCheckCycle_def autoScanEffect_def healthCheck_version)

lemma healthCheckCycle_None:
  "activeProvider st = None \<Longrightarrow> healthCheckCycle env envs st = st"
  by (simp add: healthCheckCycle_def autoScanEffect_def healthCheck_def)

text \<open>What a pass selects, whatever was selected before it.\<close>

lemma pass_selection:
  "((\<forall>i < length (providers st). scanResults envs st ! i \<noteq> Return True) \<longrightarrow>
      activeProvider (snd (scanProviders envs st)) = None) \<and>
   (\<forall>i < length (providers st). scanResults envs st ! i = Return True \<longrightarrow>
      (\<exists>k < length (providers st).
         activeProvider (snd (scanProviders envs st)) = Some (providers st ! k) \<and>
         scanResults envs st ! k = Return True \<and>
         p_priority (providers st ! k) \<le> p_priority (providers st ! i)))"
proof (intro conjI impI allI)
  assume "\<forall>i < length (providers st). scanResults envs st ! i \<noteq> Return True"
  from scanProviders_none_reachable[OF this]
  show "activeProvider (snd (scanProviders envs st)) = None" by simp
next
  fix i
  let ?ps = "providers st" and ?rs = "scanResults envs st"
  assume i: "i < length ?ps" and r: "?rs ! i = Return True"
  have len: "length ?rs = length ?ps" by (rule scanResults_length)
  from i r len have "connectedProviders ?ps ?rs \<noteq> []"
    by (auto simp: connectedProviders_Nil_iff)
  then obtain b bs where c: "connectedProviders ?ps ?rs = b # bs"
    by (cases "connectedProviders ?ps ?rs") auto
  from connectedProviders_head[OF c] obtain k where
    k: "k < length ?ps" "?rs ! k = Return True" "b = ?ps ! k"
    and le: "\<forall>i. i < length ?ps \<and> i < length ?rs \<and> ?rs ! i = Return True \<longrightarrow>
              p_priority b \<le> p_priority (?ps ! i)"
    by blast
  from le i r len k(3) have "p_priority (?ps ! k) \<le> p_priority (?ps ! i)" by simp
  moreover have "activeProvider (snd (scanProviders envs st)) = Some (?ps ! k)"
    by (simp add: scanProviders_active c k(3))
  ultimately show "\<exists>k < length ?ps.
         activeProvider (snd (scanProviders envs st)) = Some (?ps ! k) \<and>
         ?rs ! k = Return True \<and> p_priority (?ps ! k) \<le> p_priority (?ps ! i)"
    using k(1,2) by blast
qed


lemma results_after_failed_check:
  "scanResults first_down (healthCheck env_unreachable after_scan) =
     [Return False, Return True, Return False, Return False]"
  by (rule nth_equalityI)
     (auto simp: scanResults_length scanResults_nth healthCheck_def after_scan_def mcp_eval
        first_down_def less_Suc_eq nth_Cons')


section \<open>The selection in the states of the component\<close>

lemma connectToProvider_apply:
  "connectToProvider env p st =
     (Normal,
      (if probe_result env p then
         onStatusUpdate (Connected_to (p_name p))
           (onProviderChange (Some p)
              (setActiveProvider (Some p)
                 (snd (testConnection env p (setProviders (mark_status (p_id p) Connecting) st)))))
       else
         (case (if autoFallback st then fallbackProviders p st else []) of
            [] \<Rightarrow> onStatusUpdate (Failed_to_connect (p_name p))
                    (snd (testConnection env p (setProviders (mark_status (p_id p) Connecting) st)))
          | fallback # _ \<Rightarrow>
              onStatusUpdate (Switched_to_fallback (p_name fallback))
                (onProviderChange (Some fallback)
                   (setActiveProvider (Some fallback)
                      (onStatusUpdate (Failed_to_connect (p_name p))
                         (snd (testConnection env p
                                 (setProviders (mark_status (p_id p) Connecting) st)))))))))"
  by (simp add: connectToProvider_def testConnection_apply fallbackProviders_def
      split: list.splits)

lemma fallbackProviders_head:
  assumes "fallbackProviders p st = f # fs"
  shows "f \<in> set (providers st) \<and> p_id f \<noteq> p_id p \<and> p_status f = Connected"
proof -
  from assms have s: "sort_key p_fallbackOrder
      (filter (\<lambda>x. p_id x \<noteq> p_id p \<and> p_status x = Connected) (providers st)) = f # fs"
    by (simp add: fallbackProviders_def)
  from sort_key_head[OF s]
  have "f \<in> set (filter (\<lambda>x. p_id x \<noteq> p_id p \<and> p_status x = Connected) (providers st))"
    by blast
  then show ?thesis by simp
qed

lemma connectToProvider_active:
  "activeProvider (snd (connectToProvider env p st)) =
     (if probe_result env p then Some p
      else if autoFallback st then
        (case fallbackProviders p st of [] \<Rightarrow> activeProvider st | fallback # _ \<Rightarrow> Some fallback)
      else activeProvider st)"
  by (simp add: connectToProvider_apply onStatusUpdate_def onProviderChange_def
      setActiveProvider_def testConnection_apply setProviders_def split: list.splits)

lemma connectToProvider_providers:
  "providers (snd (connectToProvider env p st)) =
     providers (snd (testConnection env p (setProviders (mark_status (p_id p) Connecting) st)))"
  by (simp add: connectToProvider_apply onStatusUpdate_def onProviderChange_def
      setActiveProvider_def split: list.splits)

lemma idset_mark_status: "p_id ` set (mark_status pid s xs) = p_id ` set xs"
  by (metis ids_mark_status set_map)

lemma status_of_connectToProvider:
  "status_of q (providers (snd (connectToProvider env p st))) =
     (if q = p_id p \<and> q \<in> p_id ` set (providers st)
      then Some (if probe_result env p then Connected else PError)
      else status_of q (providers st))"
  by (cases "probe_result env p")
     (auto simp: connectToProvider_providers status_of_testConnection setProviders_def
        status_of_mark_status idset_mark_status)

lemma scan_selection_connected:
  assumes "distinct (map p_id (providers st))"
  shows "selection_connected (snd (scanProviders envs st))"
proof (cases "connectedProviders (providers st) (scanResults envs st)")
  case Nil
  then show ?thesis by (simp add: selection_connected_def scanProviders_active)
next
  case (Cons b bs)
  from connectedProviders_head[OF Cons] obtain k where
    k: "k < length (providers st)" "scanResults envs st ! k = Return True" "b = providers st ! k"
    by blast
  from k(1,2) have ok: "probe_result (envs k) (providers st ! k)"
    by (simp add: scanResults_nth)
  have "map p_id (providers (scan_begin st)) = map p_id (providers st)"
    by (simp add: scan_begin_def setProviders_def onStatusUpdate_def setIsScanning_def comp_def)
  then have "p_id ` set (providers (scan_begin st)) = p_id ` set (providers st)"
    unfolding set_ids by simp
  with k(1) have "p_id (providers st ! k) \<in> p_id ` set (providers (scan_begin st))" by simp
  from status_of_allSettled[OF assms k(1) this, of envs 0] ok
  have "status_of (p_id b) (providers (snd (allSettled envs 0 (providers st) (scan_begin st)))) =
          Some Connected"
    by (simp add: k(3))
  moreover have "providers (snd (scanProviders envs st)) =
                   providers (snd (allSettled envs 0 (providers st) (scan_begin st)))"
    by (simp add: scanProviders_apply setIsScanning_def onStatusUpdate_def onProviderChange_def
        setActiveProvider_def split: list.splits)
  ultimately show ?thesis
    by (simp add: selection_connected_def scanProviders_active Cons)
qed

lemma disconnect_selection:
  "activeProvider (snd (disconnectProvider pid st)) = None \<or>
   activeProvider (snd (disconnectProvider pid st)) = activeProvider st \<and>
   (\<forall>a. activeProvider st = Some a \<longrightarrow>
      status_of (p_id a) (providers (snd (disconnectProvider pid st))) =
        status_of (p_id a) (providers st))"
  by (auto simp: disconnectProvider_def setProviders_def setActiveProvider_def
      onProviderChange_def onStatusUpdate_def status_of_mark_status)

lemma ids_scanProviders [simp]:
  "map p_id (providers (snd (scanProviders envs st))) = map p_id (providers st)"
proof -
  have "providers (snd (scanProviders envs st)) =
          providers (snd (allSettled envs 0 (providers st) (scan_begin st)))"
    by (simp add: scanProviders_apply setIsScanning_def onStatusUpdate_def onProviderChange_def
        setActiveProvider_def split: list.splits)
  moreover have "map p_id (providers (scan_begin st)) = map p_id (providers st)"
    by (simp add: scan_begin_def setProviders_def onStatusUpdate_def setIsScanning_def comp_def)
  ultimately show ?thesis by simp
qed

lemma ids_connectToProvider [simp]:
  "map p_id (providers (snd (connectToProvider env p st))) = map p_id (providers st)"
  by (simp add: connectToProvider_providers setProviders_def)

lemma ids_disconnectProvider [simp]:
  "map p_id (providers (snd (disconnectProvider pid st))) = map p_id (providers st)"
  by (simp add: disconnectProvider_def setProviders_def setActiveProvider_def
      onProviderChange_def onStatusUpdate_def)

lemma ids_healthCheck [simp]:
  "map p_id (providers (healthCheck env st)) = map p_id (providers st)"
  by (cases "activeProvider st") (simp_all add: healthCheck_def)

text \<open>
  The invariant: the ids of the registry are distinct and the selection is backed by
  the registry.
\<close>

lemma connect_keeps_connected:
  assumes d: "distinct (map p_id (providers st))" and s: "selection_connected st"
    and o: "offers_connect p st"
  shows "selection_connected (snd (connectToProvider env p st))"
proof -
  from o have p: "p \<in> set (providers st)" "p_status p \<noteq> Connected"
    by (simp_all add: offers_connect_def)
  from find_distinct_id[OF d p(1)]
  have sp: "status_of (p_id p) (providers st) = Some (p_status p)" by (simp add: status_of_def)
  from p(1) have inreg: "p_id p \<in> p_id ` set (providers st)" by simp
  let ?st' = "snd (connectToProvider env p st)"
  show ?thesis
  proof (cases "activeProvider ?st'")
    case None
    then show ?thesis by (simp add: selection_connected_def)
  next
    case (Some b)
    show ?thesis
    proof (cases "probe_result env p")
      case True
      with Some have "b = p" by (simp add: connectToProvider_active)
      with True inreg Some show ?thesis
        by (simp add: selection_connected_def status_of_connectToProvider)
    next
      case False
      have other: "status_of (p_id b) (providers st) = Some Connected"
      proof (cases "autoFallback st")
        case no: False
        with False Some have "activeProvider st = Some b" by (simp add: connectToProvider_active)
        with s show ?thesis by (simp add: selection_connected_def)
      next
        case yes: True
        show ?thesis
        proof (cases "fallbackProviders p st")
          case Nil
          with False yes Some have "activeProvider st = Some b"
            by (simp add: connectToProvider_active)
          with s show ?thesis by (simp add: selection_connected_def)
        next
          case (Cons f fs)
          with False yes Some have "b = f" by (simp add: connectToProvider_active)
          with fallbackProviders_head[OF Cons]
          have "b \<in> set (providers st)" "p_status b = Connected" by simp_all
          with find_distinct_id[OF d, of b] show ?thesis by (simp add: status_of_def)
        qed
      qed
      with sp p(2) have "p_id b \<noteq> p_id p" by auto
      with other Some show ?thesis
        by (simp add: selection_connected_def status_of_connectToProvider)
    qed
  qed
qed

lemma disconnect_keeps_connected:
  assumes "selection_connected st"
  shows "selection_connected (snd (disconnectProvider pid st))"
  using assms disconnect_selection[of pid st]
  by (auto simp: selection_connected_def split: option.splits)

lemma cycle_keeps_connected:
  assumes d: "distinct (map p_id (providers st))" and s: "selection_connected st"
  shows "selection_connected (healthCheckCycle env envs st)"
proof (cases "activeProvider st")
  case None
  with s show ?thesis by (simp add: healthCheckCycle_None)
next
  case (Some a)
  from d have "distinct (map p_id (providers (healthCheck env st)))" by simp
  from scan_selection_connected[OF this] show ?thesis
    by (simp add: healthCheckCycle_Some[OF Some])
qed

lemma ids_healthCheckCycle [simp]:
  "map p_id (providers (healthCheckCycle env envs st)) = map p_id (providers st)"
  by (cases "activeProvider st") (simp_all add: healthCheckCycle_None healthCheckCycle_Some)

lemma step_invariant:
  assumes "component_step act st = Some st'"
    and "distinct (map p_id (providers st))" and "selection_connected st"
  shows "distinct (map p_id (providers st')) \<and> selection_connected st'"
proof (cases act)
  case (Scan envs)
  with assms show ?thesis by (auto simp: scan_selection_connected)
next
  case (Connect env p)
  with assms show ?thesis by (auto simp: connect_keeps_connected split: if_splits)
next
  case (Disconnect p)
  with assms show ?thesis by (auto simp: disconnect_keeps_connected split: if_splits)
next
  case (HealthCheck env envs)
  with assms show ?thesis by (auto simp: cycle_keeps_connected)
next
  case (SetAutoFallback b)
  with assms show ?thesis by (auto simp: selection_connected_def split: option.splits)
qed

lemma run_invariant:
  "run acts st = Some st' \<Longrightarrow>
   distinct (map p_id (providers st)) \<Longrightarrow> selection_connected st \<Longrightarrow>
   distinct (map p_id (providers st')) \<and> selection_connected st'"
proof (induction acts arbitrary: st)
  case Nil
  then show ?case by simp
next
  case (Cons act acts)
  from Cons.prems(1) obtain st1 where 1: "component_step act st = Some st1"
    and 2: "run acts st1 = Some st'"
    by (auto split: option.splits)
  from step_invariant[OF 1 Cons.prems(2,3)] Cons.IH[OF 2] show ?case by blast
qed

lemma initial_invariant:
  "distinct (map p_id (providers (initial_mcp_state now))) \<and>
   selection_connected (initial_mcp_state now)"
  by (simp add: initial_mcp_state_def initial_providers_def selection_connected_def)

lemma selectModel_apply:
  "selectModel m st =
     (if m_status m = Available
      then (Throw TypeError, setDetectedModels (Some m) (setActiveModel (Some m) st))
      else (Normal, st))"
  by (simp add: selectModel_def)


lemma sample_run_result:
  "run sample_run (initial_mcp_state 0) =
     Some (healthCheckCycle env_unreachable first_down
             (snd (connectToProvider (env_reachable 7) (providers after_scan ! 2) after_scan)))"
proof -
  have o: "offers_connect (providers after_scan ! 2) after_scan"
    by (simp add: offers_connect_def after_scan_def mcp_eval)
  have "run sample_run (initial_mcp_state 0) =
          run [Connect (env_reachable 7) (providers after_scan ! 2),
               HealthCheck env_unreachable first_down] after_scan"
    by (simp add: sample_run_def after_scan_def)
  with o show ?thesis by simp
qed

lemma sample_run_selection:
  "map_option p_id (activeProvider (healthCheckCycle env_unreachable first_down
     (snd (connectToProvider (env_reachable 7) (providers after_scan ! 2) after_scan)))) =
   Some ''ollama-local''"
  by (simp add: healthCheckCycle_def autoScanEffect_def healthCheck_def connectToProvider_def
      after_scan_def first_down_def mcp_eval)


section \<open>Claims about the score\<close>

lemma models_fold_status:
  "models (fold (\<lambda>i. onModelStatusUpdate (f i)) xs st) = models st"
  by (induction xs arbitrary: st) (simp_all add: onModelStatusUpdate_def)

lemma benchmarkModel_models:
  "models (snd (benchmarkModel env m st)) =
     (if m_status m = Available
      then mark_benchmarked (m_id m) (enhancedPerformance env)
             (overallScore (enhancedPerformance env) (m_bengaliScore m)) (models st)
      else models st)"
  by (simp add: benchmarkModel_def setModels_def setBenchmarkMode_def onModelStatusUpdate_def
      models_fold_status)

lemma testModel_stored:
  assumes "fst (testModel env m st) = Return True"
    and "x \<in> set (models (snd (testModel env m st)))" and "m_id x = m_id m"
  shows "m_performance x = simulated_performance env \<and>
         m_overallScore x = overallScore (m_performance x) (m_bengaliScore m)"
proof -
  from assms(1) have ok: "response_ok env m = Inr True"
    by (simp add: testModel_apply split: if_splits)
  with assms(2,3) show ?thesis
    by (auto simp: testModel_models mark_available_def mark_model_status_def)
qed

lemma benchmarkModel_stored:
  assumes "m_status m = Available"
    and "x \<in> set (models (snd (benchmarkModel env m st)))" and "m_id x = m_id m"
  shows "m_performance x = enhancedPerformance env \<and>
         m_overallScore x = overallScore (m_performance x) (m_bengaliScore m)"
  using assms by (auto simp: benchmarkModel_models mark_benchmarked_def)

lemma overallScore_reads:
  assumes "speed p1 = speed p2" and "accuracy p1 = accuracy p2" and "latency p1 = latency p2"
  shows "overallScore p1 b = overallScore p2 b"
  by (simp add: overallScore_def assms)

text \<open>
  Claim C4. The score is a function of the descriptor and the recorded probe result:
  whenever two probes of a model (by \<^verbatim>\<open>testModel\<close>, or by \<^verbatim>\<open>benchmarkModel\<close>), run in
  any two environments and from any two states, store samples with the same speed,
  accuracy and latency, they store the same \<^verbatim>\<open>overallScore\<close>. The other draws of
  \<^verbatim>\<open>Math.random()\<close>, the memory and CPU figures and the clock do not enter the score,
  and \<^verbatim>\<open>testModel\<close> and \<^verbatim>\<open>benchmarkModel\<close> score a given sample alike.
\<close>

theorem scoring_deterministic:
  "(fst (testModel env1 m st1) = Return True \<and> fst (testModel env2 m st2) = Return True \<and>
    x1 \<in> set (models (snd (testModel env1 m st1))) \<and> m_id x1 = m_id m \<and>
    x2 \<in> set (models (snd (testModel env2 m st2))) \<and> m_id x2 = m_id m \<and>
    speed (m_performance x1) = speed (m_performance x2) \<and>
    accuracy (m_performance x1) = accuracy (m_performance x2) \<and>
    latency (m_performance x1) = latency (m_performance x2) \<longrightarrow>
      m_overallScore x1 = m_overallScore x2) \<and>
   (m_status m = Available \<and>
    y1 \<in> set (models (snd (benchmarkModel env1 m st1))) \<and> m_id y1 = m_id m \<and>
    y2 \<in> set (models (snd (benchmarkModel env2 m st2))) \<and> m_id y2 = m_id m \<and>
    speed (m_performance y1) = speed (m_performance y2) \<and>
    accuracy (m_performance y1) = accuracy (m_performance y2) \<and>
    latency (m_performance y1) = latency (m_performance y2) \<longrightarrow>
      m_overallScore y1 = m_overallScore y2) \<and>
   (fst (testModel env1 m st1) = Return True \<and> m_status m = Available \<and>
    x1 \<in> set (models (snd (testModel env1 m st1))) \<and> m_id x1 = m_id m \<and>
    y2 \<in> set (models (snd (benchmarkModel env2 m st2))) \<and> m_id y2 = m_id m \<and>
    speed (m_performance x1) = speed (m_performance y2) \<and>
    accuracy (m_performance x1) = accuracy (m_performance y2) \<and>
    latency (m_performance x1) = latency (m_performance y2) \<longrightarrow>
      m_overallScore x1 = m_overallScore y2)"
proof (intro conjI impI)
  assume h: "fst (testModel env1 m st1) = Return True \<and> fst (testModel env2 m st2) = Return True \<and>
    x1 \<in> set (models (snd (testModel env1 m st1))) \<and> m_id x1 = m_id m \<and>
    x2 \<in> set (models (snd (testModel env2 m st2))) \<and> m_id x2 = m_id m \<and>
    speed (m_performance x1) = speed (m_performance x2) \<and>
    accuracy (m_performance x1) = accuracy (m_performance x2) \<and>
    latency (m_performance x1) = latency (m_performance x2)"
  then have "m_overallScore x1 = overallScore (m_performance x1) (m_bengaliScore m)"
    and "m_overallScore x2 = overallScore (m_performance x2) (m_bengaliScore m)"
    using testModel_stored[of env1 m st1 x1] testModel_stored[of env2 m st2 x2] by simp_all
  with h show "m_overallScore x1 = m_overallScore x2"
    using overallScore_reads[of "m_performance x1" "m_performance x2"] by simp
next
  assume h: "m_status m = Available \<and>
    y1 \<in> set (models (snd (benchmarkModel env1 m st1))) \<and> m_id y1 = m_id m \<and>
    y2 \<in> set (models (snd (benchmarkModel env2 m st2))) \<and> m_id y2 = m_id m \<and>
    speed (m_performance y1) = speed (m_performance y2) \<and>
    accuracy (m_performance y1) = accuracy (m_performance y2) \<and>
    latency (m_performance y1) = latency (m_performance y2)"
  then have "m_overallScore y1 = overallScore (m_performance y1) (m_bengaliScore m)"
    and "m_overallScore y2 = overallScore (m_performance y2) (m_bengaliScore m)"
    using benchmarkModel_stored[of m y1 env1 st1] benchmarkModel_stored[of m y2 env2 st2]
    by simp_all
  with h show "m_overallScore y1 = m_overallScore y2"
    using overallScore_reads[of "m_performance y1" "m_performance y2"] by simp
next
  assume h: "fst (testModel env1 m st1) = Return True \<and> m_status m = Available \<and>
    x1 \<in> set (models (snd (testModel env1 m st1))) \<and> m_id x1 = m_id m \<and>
    y2 \<in> set (models (snd (benchmarkModel env2 m st2))) \<and> m_id y2 = m_id m \<and>
    speed (m_performance x1) = speed (m_performance y2) \<and>
    accuracy (m_performance x1) = accuracy (m_performance y2) \<and>
    latency (m_performance x1) = latency (m_performance y2)"
  then have "m_overallScore x1 = overallScore (m_performance x1) (m_bengaliScore m)"
    and "m_overallScore y2 = overallScore (m_performance y2) (m_bengaliScore m)"
    using testModel_stored[of env1 m st1 x1] benchmarkModel_stored[of m y2 env2 st2]
    by simp_all
  with h show "m_overallScore x1 = m_overallScore y2"
    using overallScore_reads[of "m_performance x1" "m_performance y2"] by simp
qed

lemmas score_eval =
  testModel_models benchmarkModel_models response_ok_def mark_available_def
  mark_model_status_def mark_benchmarked_def overallScore_def Math_round_def
  simulated_performance_def enhancedPerformance_def menv_reachable_def menv_other_def
  zombiecoder_available_def initialModels_def initial_md_state_def bengali_only_def

theorem scoring_deterministic_witness:
  "m_overallScore (models (snd (testModel (menv_reachable 100 (1 / 2) (1 / 2))
      zombiecoder_available (initial_md_state 0))) ! 0) = 83 \<and>
   m_overallScore (models (snd (testModel menv_other zombiecoder_available bengali_only)) ! 0) = 83 \<and>
   memoryUsage (m_performance (models (snd (testModel (menv_reachable 100 (1 / 2) (1 / 2))
      zombiecoder_available (initial_md_state 0))) ! 0)) \<noteq>
   memoryUsage (m_performance (models (snd (testModel menv_other zombiecoder_available
      bengali_only)) ! 0)) \<and>
   m_overallScore (models (snd (benchmarkModel (menv_reachable 100 (1 / 2) (1 / 2))
      zombiecoder_available (initial_md_state 0))) ! 0) = 85 \<and>
   m_overallScore (models (snd (benchmarkModel menv_other zombiecoder_available bengali_only)) ! 0)
      = 85 \<and>
   m_overallScore (models (snd (testModel (menv_reachable 150 (3 / 5) (3 / 5))
      zombiecoder_available (initial_md_state 0))) ! 0) = 85"
proof -
  let ?m = zombiecoder_available
  let ?e1 = "menv_reachable 100 (1 / 2) (1 / 2)" and ?e3 = "menv_reachable 150 (3 / 5) (3 / 5)"
  let ?s1 = "initial_md_state 0" and ?s2 = bengali_only
  let ?x1 = "models (snd (testModel ?e1 ?m ?s1)) ! 0"
  let ?x2 = "models (snd (testModel menv_other ?m ?s2)) ! 0"
  let ?x3 = "models (snd (testModel ?e3 ?m ?s1)) ! 0"
  let ?y1 = "models (snd (benchmarkModel ?e1 ?m ?s1)) ! 0"
  let ?y2 = "models (snd (benchmarkModel menv_other ?m ?s2)) ! 0"
  have ok: "fst (testModel ?e1 ?m ?s1) = Return True" "fst (testModel menv_other ?m ?s2) = Return True"
    "fst (testModel ?e3 ?m ?s1) = Return True" "m_status ?m = Available"
    by (simp_all add: testModel_apply response_ok_def menv_reachable_def menv_other_def
        zombiecoder_available_def initialModels_def)
  have mem: "?x1 \<in> set (models (snd (testModel ?e1 ?m ?s1)))"
    "?x2 \<in> set (models (snd (testModel menv_other ?m ?s2)))"
    "?x3 \<in> set (models (snd (testModel ?e3 ?m ?s1)))"
    "?y1 \<in> set (models (snd (benchmarkModel ?e1 ?m ?s1)))"
    "?y2 \<in> set (models (snd (benchmarkModel menv_other ?m ?s2)))"
    by (simp_all add: score_eval)
  have ids: "m_id ?x1 = m_id ?m" "m_id ?x2 = m_id ?m" "m_id ?x3 = m_id ?m"
    "m_id ?y1 = m_id ?m" "m_id ?y2 = m_id ?m"
    by (simp_all add: score_eval)
  have perf: "speed (m_performance ?x1) = speed (m_performance ?x2)"
    "accuracy (m_performance ?x1) = accuracy (m_performance ?x2)"
    "latency (m_performance ?x1) = latency (m_performance ?x2)"
    "speed (m_performance ?y1) = speed (m_performance ?y2)"
    "accuracy (m_performance ?y1) = accuracy (m_performance ?y2)"
    "latency (m_performance ?y1) = latency (m_performance ?y2)"
    "speed (m_performance ?x3) = speed (m_performance ?y2)"
    "accuracy (m_performance ?x3) = accuracy (m_performance ?y2)"
    "latency (m_performance ?x3) = latency (m_performance ?y2)"
    by (simp_all add: score_eval)
  have v: "m_overallScore ?x1 = 83" "m_overallScore ?y2 = 85"
    "memoryUsage (m_performance ?x1) \<noteq> memoryUsage (m_performance ?x2)"
    by (simp_all add: score_eval)
  from scoring_deterministic[of ?e1 ?m ?s1 menv_other ?s2 ?x1 ?x2 ?y1 ?y2] ok mem ids perf
  have a: "m_overallScore ?x1 = m_overallScore ?x2" "m_overallScore ?y1 = m_overallScore ?y2"
    by blast+
  from scoring_deterministic[of ?e3 ?m ?s1 menv_other ?s2 ?x3 ?x2 ?y1 ?y2] ok mem ids perf
  have b: "m_overallScore ?x3 = m_overallScore ?y2"
    by blast
  from v a b show ?thesis by simp
qed

section \<open>Claims about what a pass selects\<close>

lemmas md_eval =
  scanModels_def testModel_apply response_ok_def seq_def
  availableModels_def sortModels_def fulfilled_true_def setModels_def setActiveModel_def
  setIsScanningModels_def onModelStatusUpdate_def setDetectedModels_def mark_model_status_def
  mark_available_def initialModels_def initial_md_state_def menv_reachable_def
  menv_unreachable_def llama_and_gpt_up_def bengali_only_def

lemma sortModels_available_head:
  assumes "sortModels b (availableModels ms rs) = y # ys"
  shows "(\<exists>k. k < length ms \<and> k < length rs \<and> rs ! k = Return True \<and> y = ms ! k) \<and>
         (\<forall>i. i < length ms \<and> i < length rs \<and> rs ! i = Return True \<longrightarrow>
              (if b then m_bengaliScore (ms ! i) \<le> m_bengaliScore y
               else m_overallScore (ms ! i) \<le> m_overallScore y))"
proof -
  from sortModels_head[OF assms]
  have "y \<in> set (availableModels ms rs)"
    and "\<forall>x \<in> set (availableModels ms rs).
           if b then m_bengaliScore x \<le> m_bengaliScore y else m_overallScore x \<le> m_overallScore y"
    by simp_all
  then show ?thesis unfolding availableModels_set by blast
qed

text \<open>
  What a pass selects in any registry: a reachable endpoint, and for the models with
  the filter on one of greatest \<^verbatim>\<open>bengaliScore\<close> among the reachable ones.
\<close>

lemma pass_selects_best:
  "((\<exists>i < length (providers st). scanResults envs st ! i = Return True) \<longrightarrow>
      (\<exists>k < length (providers st).
         activeProvider (snd (scanProviders envs st)) = Some (providers st ! k) \<and>
         scanResults envs st ! k = Return True)) \<and>
   (\<forall>i < length (models mst). scanModelsResults menvs mst ! i = Return True \<longrightarrow>
      (\<exists>k < length (models mst).
         activeModel (snd (scanModels menvs mst)) = Some (models mst ! k) \<and>
         scanModelsResults menvs mst ! k = Return True \<and>
         (filterBengali mst \<longrightarrow>
            m_bengaliScore (models mst ! i) \<le> m_bengaliScore (models mst ! k) \<and>
            (bengaliSupport (m_capabilities (models mst ! i)) \<and>
             (\<forall>j < length (models mst).
                scanModelsResults menvs mst ! j = Return True \<and>
                \<not> bengaliSupport (m_capabilities (models mst ! j)) \<longrightarrow>
                m_bengaliScore (models mst ! j) < m_bengaliScore (models mst ! i)) \<longrightarrow>
             bengaliSupport (m_capabilities (models mst ! k))))))"
proof (intro conjI impI allI)
  assume "\<exists>i < length (providers st). scanResults envs st ! i = Return True"
  then have "connectedProviders (providers st) (scanResults envs st) \<noteq> []"
    by (auto simp: connectedProviders_Nil_iff scanResults_length)
  then obtain b bs where c: "connectedProviders (providers st) (scanResults envs st) = b # bs"
    by (cases "connectedProviders (providers st) (scanResults envs st)") auto
  from connectedProviders_head[OF c] obtain k where
    "k < length (providers st)" "scanResults envs st ! k = Return True" "b = providers st ! k"
    by blast
  then show "\<exists>k < length (providers st).
         activeProvider (snd (scanProviders envs st)) = Some (providers st ! k) \<and>
         scanResults envs st ! k = Return True"
    by (auto simp: scanProviders_active c)
next
  fix i
  let ?ms = "models mst" and ?rs = "scanModelsResults menvs mst"
  assume i: "i < length ?ms" and r: "?rs ! i = Return True"
  have len: "length ?rs = length ?ms" by (rule scanModelsResults_length)
  from i r len have "?ms ! i \<in> set (availableModels ?ms ?rs)"
    unfolding availableModels_set by auto
  then have "sortModels (filterBengali mst) (availableModels ?ms ?rs) \<noteq> []"
    by (auto simp: sortModels_Nil_iff)
  then obtain y ys where c: "sortModels (filterBengali mst) (availableModels ?ms ?rs) = y # ys"
    by (cases "sortModels (filterBengali mst) (availableModels ?ms ?rs)") auto
  from sortModels_available_head[OF c] obtain k where
    k: "k < length ?ms" "?rs ! k = Return True" "y = ?ms ! k"
    and best: "\<forall>i. i < length ?ms \<and> i < length ?rs \<and> ?rs ! i = Return True \<longrightarrow>
              (if filterBengali mst then m_bengaliScore (?ms ! i) \<le> m_bengaliScore y
               else m_overallScore (?ms ! i) \<le> m_overallScore y)"
    by blast
  have a: "activeModel (snd (scanModels menvs mst)) = Some (?ms ! k)"
    by (simp add: scanModels_active c k(3))
  have f: "filterBengali mst \<longrightarrow>
            m_bengaliScore (?ms ! i) \<le> m_bengaliScore (?ms ! k) \<and>
            (bengaliSupport (m_capabilities (?ms ! i)) \<and>
             (\<forall>j < length ?ms.
                ?rs ! j = Return True \<and> \<not> bengaliSupport (m_capabilities (?ms ! j)) \<longrightarrow>
                m_bengaliScore (?ms ! j) < m_bengaliScore (?ms ! i)) \<longrightarrow>
             bengaliSupport (m_capabilities (?ms ! k)))"
  proof (intro impI conjI)
    assume fb: "filterBengali mst"
    with best i r len k(3) show le: "m_bengaliScore (?ms ! i) \<le> m_bengaliScore (?ms ! k)"
      by auto
    assume h: "bengaliSupport (m_capabilities (?ms ! i)) \<and>
             (\<forall>j < length ?ms.
                ?rs ! j = Return True \<and> \<not> bengaliSupport (m_capabilities (?ms ! j)) \<longrightarrow>
                m_bengaliScore (?ms ! j) < m_bengaliScore (?ms ! i))"
    show "bengaliSupport (m_capabilities (?ms ! k))"
    proof (rule ccontr)
      assume "\<not> bengaliSupport (m_capabilities (?ms ! k))"
      with h k(1,2) have "m_bengaliScore (?ms ! k) < m_bengaliScore (?ms ! i)" by blast
      with le show False by simp
    qed
  qed
  from k(1,2) a f
  show "\<exists>k < length ?ms.
         activeModel (snd (scanModels menvs mst)) = Some (?ms ! k) \<and>
         ?rs ! k = Return True \<and>
         (filterBengali mst \<longrightarrow>
            m_bengaliScore (?ms ! i) \<le> m_bengaliScore (?ms ! k) \<and>
            (bengaliSupport (m_capabilities (?ms ! i)) \<and>
             (\<forall>j < length ?ms.
                ?rs ! j = Return True \<and> \<not> bengaliSupport (m_capabilities (?ms ! j)) \<longrightarrow>
                m_bengaliScore (?ms ! j) < m_bengaliScore (?ms ! i)) \<longrightarrow>
             bengaliSupport (m_capabilities (?ms ! k))))"
    by blast
qed

lemma results_bengali_only:
  "scanModelsResults llama_and_gpt_up bengali_only =
     [Return False, Return True, Return False, Return True]"
  by (rule nth_equalityI)
     (auto simp: scanModelsResults_length scanModelsResults_nth bengali_only_def
        initial_md_state_def initialModels_def response_ok_def menv_unreachable_def
        menv_reachable_def llama_and_gpt_up_def less_Suc_eq nth_Cons')

subsection \<open>The registry the model detector holds\<close>

lemma model_descriptor_fields [simp]:
  "m_id (model_descriptor m) = m_id m"
  "m_bengaliScore (model_descriptor m) = m_bengaliScore m"
  "m_capabilities (model_descriptor m) = m_capabilities m"
  by (simp_all add: model_descriptor_def)

lemma model_descriptor_updates [simp]:
  "model_descriptor (m\<lparr>m_status := s\<rparr>) = model_descriptor m"
  "model_descriptor (m\<lparr>m_performance := p\<rparr>) = model_descriptor m"
  "model_descriptor (m\<lparr>m_overallScore := n\<rparr>) = model_descriptor m"
  by (simp_all add: model_descriptor_def)

lemma descriptors_mark_model_status [simp]:
  "map model_descriptor (mark_model_status mid s ms) = map model_descriptor ms"
  by (simp add: mark_model_status_def)

lemma descriptors_mark_available [simp]:
  "map model_descriptor (mark_available mid p n ms) = map model_descriptor ms"
  by (simp add: mark_available_def)

lemma descriptors_mark_benchmarked [simp]:
  "map model_descriptor (mark_benchmarked mid p n ms) = map model_descriptor ms"
  by (simp add: mark_benchmarked_def)

lemma builtin_initial: "builtin_models (initial_md_state now)"
  by (simp add: builtin_models_def initial_md_state_def initialModels_def model_descriptor_def)

lemma builtin_testModel:
  "builtin_models st \<Longrightarrow> builtin_models (snd (testModel env m st))"
  by (simp add: builtin_models_def testModel_models)

lemma builtin_allSettledModels:
  "builtin_models st \<Longrightarrow> builtin_models (snd (allSettledModels envs i ms st))"
  by (induction ms arbitrary: i st)
     (simp_all add: allSettledModels_Cons builtin_testModel del: allSettledModels.simps(2))

lemma builtin_scanModels:
  assumes "builtin_models st"
  shows "builtin_models (snd (scanModels envs st))"
proof -
  from assms have "builtin_models (scanModels_begin st)"
    by (simp add: builtin_models_def scanModels_begin_def onModelStatusUpdate_def
        setIsScanningModels_def)
  from builtin_allSettledModels[OF this, of envs 0 "models st"] show ?thesis
    by (simp add: builtin_models_def scanModels_models)
qed

lemma builtin_benchmarkModel:
  "builtin_models st \<Longrightarrow> builtin_models (snd (benchmarkModel env m st))"
  by (simp add: builtin_models_def benchmarkModel_models)

lemma builtin_selectModel:
  "builtin_models st \<Longrightarrow> builtin_models (snd (selectModel m st))"
  by (simp add: builtin_models_def selectModel_apply setDetectedModels_def setActiveModel_def)

lemma builtin_filterBengali:
  "builtin_models st \<Longrightarrow> builtin_models (st\<lparr>filterBengali := b\<rparr>)"
  by (simp add: builtin_models_def)

lemma builtin_table:
  assumes "builtin_models st"
  shows "map (\<lambda>m. (bengaliSupport (m_capabilities m), m_bengaliScore m)) (models st) =
           [(True, 95), (False, 30), (False, 10), (True, 75)]"
proof -
  let ?f = "\<lambda>m. (bengaliSupport (m_capabilities m), m_bengaliScore m)"
  have "map ?f (models st) = map (?f \<circ> model_descriptor) (models st)"
    by (simp add: comp_def)
  also have "\<dots> = map ?f (map model_descriptor (models st))" by simp
  also have "\<dots> = map ?f (initialModels 0)"
    using assms by (simp only: builtin_models_def)
  also have "\<dots> = [(True, 95), (False, 30), (False, 10), (True, 75)]"
    by (simp add: initialModels_def)
  finally show ?thesis .
qed

lemma builtin_dominates:
  assumes b: "builtin_models st" and i: "i < length (models st)" and j: "j < length (models st)"
    and si: "bengaliSupport (m_capabilities (models st ! i))"
    and sj: "\<not> bengaliSupport (m_capabilities (models st ! j))"
  shows "m_bengaliScore (models st ! j) < m_bengaliScore (models st ! i)"
proof -
  let ?f = "\<lambda>m. (bengaliSupport (m_capabilities m), m_bengaliScore m)"
  let ?t = "[(True, 95), (False, 30), (False, 10), (True, 75 :: int)]"
  note tab = builtin_table[OF b]
  from tab have len: "length (models st) = 4" using length_map[of ?f "models st"] by simp
  from i have "?f (models st ! i) = map ?f (models st) ! i" by simp
  with tab have ti: "?f (models st ! i) = ?t ! i" by simp
  from j have "?f (models st ! j) = map ?f (models st) ! j" by simp
  with tab have tj: "?f (models st ! j) = ?t ! j" by simp
  from i len have "i = 0 \<or> i = 1 \<or> i = 2 \<or> i = 3" by auto
  moreover from j len have "j = 0 \<or> j = 1 \<or> j = 2 \<or> j = 3" by auto
  ultimately show ?thesis using ti tj si sj by auto
qed



section \<open>Two passes in a row\<close>

lemma map_insort_key:
  assumes "\<And>x. k' (h x) = k x"
  shows "map h (insort_key k x xs) = insort_key k' (h x) (map h xs)"
  by (induction xs) (simp_all add: assms)

lemma map_sort_key:
  assumes "\<And>x. k' (h x) = k x"
  shows "map h (sort_key k xs) = sort_key k' (map h xs)"
  by (induction xs) (simp_all add: map_insort_key[of k' h k, OF assms])

lemma map_kept:
  "map h (map fst (filter (\<lambda>(p, r). fulfilled_true r) (zip xs rs))) =
     map fst (filter (\<lambda>(p, r). fulfilled_true r) (zip (map h xs) rs))"
proof (induction xs arbitrary: rs)
  case Nil
  then show ?case by simp
next
  case (Cons x xs)
  then show ?case by (cases rs) simp_all
qed

lemma sorted_kept_observed:
  assumes "map (\<lambda>x. (k x, g x)) xs = map (\<lambda>x. (k x, g x)) ys"
  shows "map g (sort_key k (map fst (filter (\<lambda>(p, r). fulfilled_true r) (zip xs rs)))) =
         map g (sort_key k (map fst (filter (\<lambda>(p, r). fulfilled_true r) (zip ys rs))))"
proof -
  let ?h = "\<lambda>x. (k x, g x)"
  have "map ?h (sort_key k (map fst (filter (\<lambda>(p, r). fulfilled_true r) (zip xs rs)))) =
        map ?h (sort_key k (map fst (filter (\<lambda>(p, r). fulfilled_true r) (zip ys rs))))"
    by (simp only: map_sort_key[of fst ?h k, OF fst_conv] map_kept assms)
  then have "map (snd \<circ> ?h) (sort_key k (map fst (filter (\<lambda>(p, r). fulfilled_true r) (zip xs rs)))) =
             map (snd \<circ> ?h) (sort_key k (map fst (filter (\<lambda>(p, r). fulfilled_true r) (zip ys rs))))"
    by (simp only: map_map[symmetric])
  then show ?thesis by (simp add: comp_def)
qed

lemma map_pair_zip: "map (\<lambda>x. (f x, g x)) xs = zip (map f xs) (map g xs)"
  by (induction xs) simp_all

lemma map_pair_eq:
  "map f xs = map f ys \<Longrightarrow> map g xs = map g ys \<Longrightarrow>
   map (\<lambda>x. (f x, g x)) xs = map (\<lambda>x. (f x, g x)) ys"
  by (simp only: map_pair_zip)

lemma head_observed:
  "map g xs = map g ys \<Longrightarrow>
   map_option g (case xs of [] \<Rightarrow> None | b # _ \<Rightarrow> Some b) =
   map_option g (case ys of [] \<Rightarrow> None | b # _ \<Rightarrow> Some b)"
  by (cases xs; cases ys) simp_all

lemma connectedProviders_observed:
  assumes "map p_id ps1 = map p_id ps2" and "map p_priority ps1 = map p_priority ps2"
  shows "map p_id (connectedProviders ps1 rs) = map p_id (connectedProviders ps2 rs)"
  unfolding connectedProviders_def
  by (rule sorted_kept_observed) (rule map_pair_eq[OF assms(2) assms(1)])

lemma descriptor_fields:
  "p_id (descriptor p) = p_id p" "p_priority (descriptor p) = p_priority p"
  "p_type (descriptor p) = p_type p"
  by (simp_all add: descriptor_def)

lemma descriptors_testConnection:
  "map descriptor (providers (snd (testConnection env p st))) = map descriptor (providers st)"
  by (simp add: testConnection_providers mark_connected_def mark_error_def descriptor_def)

lemma descriptors_allSettled:
  "map descriptor (providers (snd (allSettled envs i ps st))) = map descriptor (providers st)"
  by (induction ps arbitrary: i st)
     (simp_all add: allSettled_Cons descriptors_testConnection del: allSettled.simps(2))

lemma descriptors_scanProviders:
  "map descriptor (providers (snd (scanProviders envs st))) = map descriptor (providers st)"
proof -
  have "providers (snd (scanProviders envs st)) =
          providers (snd (allSettled envs 0 (providers st) (scan_begin st)))"
    by (simp add: scanProviders_apply setIsScanning_def onStatusUpdate_def onProviderChange_def
        setActiveProvider_def split: list.splits)
  moreover have "map descriptor (providers (scan_begin st)) = map descriptor (providers st)"
    by (simp add: scan_begin_def setProviders_def onStatusUpdate_def setIsScanning_def
        descriptor_def)
  ultimately show ?thesis by (simp add: descriptors_allSettled)
qed

lemma map_of_descriptors:
  assumes "map descriptor xs = map descriptor ys" and "\<And>p. f (descriptor p) = f p"
  shows "map f xs = map f ys"
proof -
  have "map (f \<circ> descriptor) xs = map (f \<circ> descriptor) ys"
    using assms(1) by (simp only: map_map[symmetric])
  then show ?thesis by (simp add: comp_def assms(2))
qed

lemma scanResults_types:
  assumes "map p_type (providers st1) = map p_type (providers st2)"
  shows "scanResults envs st1 = scanResults envs st2"
proof (rule nth_equalityI)
  from assms have l: "length (providers st1) = length (providers st2)"
    by (rule map_eq_imp_length_eq)
  then show "length (scanResults envs st1) = length (scanResults envs st2)"
    by (simp add: scanResults_length)
  fix k assume "k < length (scanResults envs st1)"
  then have k: "k < length (providers st1)" "k < length (providers st2)"
    using l by (simp_all add: scanResults_length)
  from assms k have "p_type (providers st1 ! k) = p_type (providers st2 ! k)"
    by (metis nth_map)
  with k show "scanResults envs st1 ! k = scanResults envs st2 ! k"
    by (simp add: scanResults_nth probe_result_def)
qed

text \<open>
  The scan of the providers sorts on the priority, which no pass writes: the id it
  selects depends on the ids and priorities of the registry and on the probe results
  only, and a second pass under the same environments selects the same id as the first.
\<close>

lemma scanProviders_reads_keys:
  assumes "map p_id (providers st1) = map p_id (providers st2)"
    and "map p_priority (providers st1) = map p_priority (providers st2)"
    and "scanResults envs1 st1 = scanResults envs2 st2"
  shows "map_option p_id (activeProvider (snd (scanProviders envs1 st1))) =
         map_option p_id (activeProvider (snd (scanProviders envs2 st2)))"
proof -
  from assms have "map p_id (connectedProviders (providers st1) (scanResults envs1 st1)) =
                   map p_id (connectedProviders (providers st2) (scanResults envs2 st2))"
    using connectedProviders_observed[of "providers st1" "providers st2" "scanResults envs2 st2"]
    by simp
  from head_observed[OF this] show ?thesis by (simp only: scanProviders_active)
qed

lemma scanProviders_twice:
  "map_option p_id (activeProvider (snd (scanProviders envs (snd (scanProviders envs st))))) =
   map_option p_id (activeProvider (snd (scanProviders envs st)))"
proof (rule scanProviders_reads_keys)
  note d = descriptors_scanProviders[of envs st]
  show "map p_id (providers (snd (scanProviders envs st))) = map p_id (providers st)"
    by (rule map_of_descriptors[where f = p_id, OF d descriptor_fields(1)])
  show "map p_priority (providers (snd (scanProviders envs st))) = map p_priority (providers st)"
    by (rule map_of_descriptors[where f = p_priority, OF d descriptor_fields(2)])
  have "map p_type (providers (snd (scanProviders envs st))) = map p_type (providers st)"
    by (rule map_of_descriptors[where f = p_type, OF d descriptor_fields(3)])
  then show "scanResults envs (snd (scanProviders envs st)) = scanResults envs st"
    by (rule scanResults_types)
qed

lemma results_after_model_scan:
  "scanModelsResults llama_and_gpt_up (initial_md_state 0) =
     [Return False, Return True, Return False, Return True] \<and>
   scanModelsResults llama_and_gpt_up after_model_scan =
     [Return False, Return True, Return False, Return True]"
proof -
  have b: "builtin_models after_model_scan"
    unfolding after_model_scan_def by (rule builtin_scanModels[OF builtin_initial])
  have "map m_provider (map model_descriptor (models after_model_scan)) =
        map m_provider (initialModels 0)"
    using b by (simp only: builtin_models_def)
  then have pr: "map m_provider (models after_model_scan) = [ZombieCoder, Ollama, LMStudio, OpenAI]"
    by (simp add: comp_def model_descriptor_def initialModels_def)
  then have len: "length (models after_model_scan) = 4"
    using length_map[of m_provider "models after_model_scan"] by simp
  have nth: "\<And>k. k < 4 \<Longrightarrow>
               m_provider (models after_model_scan ! k) = [ZombieCoder, Ollama, LMStudio, OpenAI] ! k"
    using pr len by (metis nth_map)
  have 1: "scanModelsResults llama_and_gpt_up (initial_md_state 0) =
     [Return False, Return True, Return False, Return True]"
    by (rule nth_equalityI)
       (auto simp: scanModelsResults_length scanModelsResults_nth
          initial_md_state_def initialModels_def response_ok_def menv_unreachable_def
          menv_reachable_def llama_and_gpt_up_def less_Suc_eq nth_Cons')
  have 2: "scanModelsResults llama_and_gpt_up after_model_scan =
     [Return False, Return True, Return False, Return True]"
    by (rule nth_equalityI)
       (auto simp: scanModelsResults_length scanModelsResults_nth len nth
          response_ok_def menv_unreachable_def
          menv_reachable_def llama_and_gpt_up_def less_Suc_eq nth_Cons')
  from 1 2 show ?thesis by simp
qed


end
